theory Spec2Isabelle
  imports Complex_Main
begin

section \<open>Data types (statemachine/types.py)\<close>

text \<open>
  Wall-clock readings (\<^verbatim>\<open>time.time()\<close>) and durations are real numbers.
  State identifiers are the members of the caller's Enum, of an arbitrary type \<open>'s\<close>;
  the type may have more values than the declared enumeration (the tests pass members of
  a second Enum as initial state or as transition end point).
\<close>

datatype StateResult = SUCCESS | FAILURE | RETRY | SKIP | TIMEOUT

record 's StateMetadata =
  name :: string
  description :: string
  max_retries :: int
  timeout :: "real option"
  failover_state :: "'s option"

text \<open>
  Everything outside the engine object that handlers and guards can read or change:
  the clock, and the application's own data \<open>ext\<close>.
\<close>

record 'u world =
  now :: real
  ext :: 'u

text \<open>
  A guard is a zero-argument callable: it returns a truth value or raises. It reads the
  world it closes over and leaves it as it is.
\<close>

datatype guard_outcome = GuardReturns bool | GuardRaises

record ('s, 'u) StateTransition =
  from_state :: 's
  to_state :: 's
  condition :: "('u world \<Rightarrow> guard_outcome) option"

datatype message = TimeoutAfter "real option" | ErrorText string

record 's StateHistoryEntry =
  entry_state :: 's
  entry_result :: StateResult
  duration :: real
  timestamp :: real
  entry_retry_count :: int
  error_message :: "message option"

text \<open>
  The context's open \<^verbatim>\<open>metadata\<close> bag is never read by the engine; what handlers keep
  there lives in \<open>ext\<close>.
\<close>

record 's StateExecutionContext =
  ctx_current_state :: 's
  ctx_retry_count :: int
  start_time :: real

datatype 's config_cause =
    NoMetadata 's
  | InitialStateNotFound "'s option"
  | FromStateNotInEnum 's
  | ToStateNotInEnum 's
  | MaxRetriesNegative int
  | TimeoutNotPositive real

text \<open>
  The exceptions the engine raises or lets through. A \<open>ValueError\<close> carries the cause
  its message is formatted from; the \<open>AttributeError\<close> the name of the handler that was
  looked up; the \<open>RuntimeError\<close> of the watchdog the idle time and the threshold.
\<close>

datatype 's error =
    ValueError "'s config_cause"
  | KeyError "'s option"
  | TypeError
  | AttributeError string
  | RuntimeError real real

text \<open>\<^verbatim>\<open>StateMetadata.__post_init__\<close>\<close>

definition post_init :: "'s StateMetadata \<Rightarrow> 's error + 's StateMetadata" where
  "post_init md =
     (if max_retries md < 0 then Inl (ValueError (MaxRetriesNegative (max_retries md)))
      else case timeout md of
             None \<Rightarrow> Inr md
           | Some t \<Rightarrow> if t \<le> 0 then Inl (ValueError (TimeoutNotPositive t)) else Inr md)"

text \<open>\<^verbatim>\<open>StateTransition.can_transition\<close>\<close>

definition can_transition :: "('s, 'u) StateTransition \<Rightarrow> 'u world \<Rightarrow> bool" where
  "can_transition t w =
     (case condition t of
        None \<Rightarrow> True
      | Some c \<Rightarrow> (case c w of GuardReturns b \<Rightarrow> b | GuardRaises \<Rightarrow> False))"

text \<open>\<^verbatim>\<open>StateExecutionContext.elapsed_time\<close> and \<^verbatim>\<open>has_timed_out\<close>\<close>

definition elapsed_time :: "'s StateExecutionContext \<Rightarrow> 'u world \<Rightarrow> real" where
  "elapsed_time ctx w = now w - start_time ctx"

definition has_timed_out :: "'s StateExecutionContext \<Rightarrow> real option \<Rightarrow> 'u world \<Rightarrow> bool" where
  "has_timed_out ctx tmo w =
     (case tmo of None \<Rightarrow> False | Some t \<Rightarrow> elapsed_time ctx w \<ge> t)"

section \<open>The engine (statemachine/machine.py)\<close>

datatype handler_outcome = Returned StateResult | Raised string

type_synonym ('s, 'u) handler =
  "'s StateExecutionContext \<Rightarrow> 'u world \<Rightarrow> handler_outcome \<times> 'u world"

text \<open>
  What a subclass supplies: the four abstract methods, the \<^verbatim>\<open>value\<close> of each Enum member
  and the attributes \<^verbatim>\<open>_handle_...\<close> of the object, by name. A handler works on the
  world, not on the engine's own fields; the time it takes shows as the clock it returns,
  and it returns a result or raises an exception with a message.
\<close>

record ('s, 'u) config =
  define_states :: "'s list"
  define_state_metadata :: "'s \<rightharpoonup> 's StateMetadata"
  define_transitions :: "('s, 'u) StateTransition list"
  get_initial_state :: 's
  state_value :: "'s \<Rightarrow> string"
  attributes :: "string \<rightharpoonup> ('s, 'u) handler"

text \<open>
  The fields of a \<^verbatim>\<open>StateMachine\<close> object. \<open>handler_calls\<close> is instrumentation, not a
  field of the object: it lists the state and retry index of every handler invocation,
  as the tests' \<^verbatim>\<open>calls.append(ctx.retry_count)\<close> do.
\<close>

record ('s, 'u) machine =
  states :: "'s list option"
  state_metadata :: "'s \<rightharpoonup> 's StateMetadata"
  transitions :: "('s, 'u) StateTransition list"
  current_state :: "'s option"
  transition_map :: "'s \<rightharpoonup> ('s, 'u) StateTransition list"
  state_history :: "'s StateHistoryEntry list"
  retry_counts :: "'s \<rightharpoonup> int"
  initialized :: bool
  watchdog_timeout :: "real option"
  watchdog_last_activity :: real
  watchdog_warned :: bool
  handler_calls :: "('s \<times> int) list"

definition MAX_STATES_PER_RUN :: nat where
  "MAX_STATES_PER_RUN = 100"

text \<open>\<^verbatim>\<open>StateMachine.__init__\<close>, at clock reading \<open>t\<close>\<close>

definition init_machine :: "real \<Rightarrow> ('s, 'u) machine" where
  "init_machine t =
     \<lparr> states = None, state_metadata = Map.empty, transitions = [],
       current_state = None, transition_map = Map.empty, state_history = [],
       retry_counts = Map.empty, initialized = False, watchdog_timeout = None,
       watchdog_last_activity = t, watchdog_warned = False, handler_calls = [] \<rparr>"

text \<open>\<^verbatim>\<open>deque(maxlen=100).append\<close>: the oldest entry leaves a full buffer.\<close>

definition deque_append :: "'a list \<Rightarrow> 'a \<Rightarrow> 'a list" where
  "deque_append xs x = (let ys = xs @ [x] in drop (length ys - 100) ys)"

subsection \<open>Initialisation\<close>

text \<open>The loop of \<^verbatim>\<open>initialize\<close> that fills the lookup map with \<^verbatim>\<open>setdefault(...).append\<close>.\<close>

fun build_transition_map ::
  "('s, 'u) StateTransition list \<Rightarrow> ('s \<rightharpoonup> ('s, 'u) StateTransition list)
    \<Rightarrow> ('s \<rightharpoonup> ('s, 'u) StateTransition list)" where
  "build_transition_map [] tm = tm"
| "build_transition_map (t # ts) tm =
     build_transition_map ts
       (tm(from_state t \<mapsto> (case tm (from_state t) of None \<Rightarrow> [] | Some l \<Rightarrow> l) @ [t]))"

text \<open>The three loops and checks of \<^verbatim>\<open>_validate\<close>; \<open>None\<close> is a normal return.\<close>

fun validate_metadata :: "'s list \<Rightarrow> ('s \<rightharpoonup> 's StateMetadata) \<Rightarrow> 's error option" where
  "validate_metadata [] mds = None"
| "validate_metadata (s # ss) mds =
     (if mds s = None then Some (ValueError (NoMetadata s)) else validate_metadata ss mds)"

fun validate_transitions :: "'s list \<Rightarrow> ('s, 'u) StateTransition list \<Rightarrow> 's error option" where
  "validate_transitions sts [] = None"
| "validate_transitions sts (t # ts) =
     (if from_state t \<notin> set sts then Some (ValueError (FromStateNotInEnum (from_state t)))
      else if to_state t \<notin> set sts then Some (ValueError (ToStateNotInEnum (to_state t)))
      else validate_transitions sts ts)"

definition validate :: "('s, 'u) machine \<Rightarrow> 's error option" where
  "validate m =
     (case states m of
        None \<Rightarrow> Some TypeError
      | Some sts \<Rightarrow>
          (case validate_metadata sts (state_metadata m) of
             Some e \<Rightarrow> Some e
           | None \<Rightarrow>
               if current_state m \<notin> Some ` set sts
               then Some (ValueError (InitialStateNotFound (current_state m)))
               else validate_transitions sts (transitions m)))"

text \<open>
  \<^verbatim>\<open>initialize\<close>: the result is the exception raised (\<open>Inl\<close>) or a normal return, with
  the object as the call leaves it.
\<close>

definition initialize ::
  "('s, 'u) config \<Rightarrow> ('s, 'u) machine \<Rightarrow> ('s error + unit) \<times> ('s, 'u) machine" where
  "initialize cfg m =
     (if initialized m then (Inr (), m)
      else
        let m1 = m\<lparr> states := Some (define_states cfg),
                    state_metadata := define_state_metadata cfg,
                    transitions := define_transitions cfg,
                    current_state := Some (get_initial_state cfg),
                    transition_map := build_transition_map (define_transitions cfg) Map.empty \<rparr>
        in case validate m1 of
             Some e \<Rightarrow> (Inl e, m1)
           | None \<Rightarrow> (Inr (), m1\<lparr> initialized := True \<rparr>))"

subsection \<open>Watchdog\<close>

definition enable_watchdog :: "real \<Rightarrow> ('s, 'u) machine \<Rightarrow> 'u world \<Rightarrow> ('s, 'u) machine" where
  "enable_watchdog timeout_seconds m w =
     m\<lparr> watchdog_timeout := Some timeout_seconds,
        watchdog_last_activity := now w,
        watchdog_warned := False \<rparr>"

definition record_activity :: "('s, 'u) machine \<Rightarrow> 'u world \<Rightarrow> ('s, 'u) machine" where
  "record_activity m w = m\<lparr> watchdog_last_activity := now w, watchdog_warned := False \<rparr>"

definition check_watchdog ::
  "('s, 'u) machine \<Rightarrow> 'u world \<Rightarrow> ('s error + unit) \<times> ('s, 'u) machine" where
  "check_watchdog m w =
     (case watchdog_timeout m of
        None \<Rightarrow> (Inr (), m)
      | Some t \<Rightarrow>
          let idle = now w - watchdog_last_activity m in
          if idle \<ge> t then (Inl (RuntimeError idle t), m)
          else
            let warn_at = t * (8 / 10) in
            if idle \<ge> warn_at \<and> \<not> watchdog_warned m
            then (Inr (), m\<lparr> watchdog_warned := True \<rparr>)
            else (Inr (), m))"

subsection \<open>Introspection\<close>

text \<open>Python's \<^verbatim>\<open>xs[i:]\<close>: a negative index counts from the end, and is clipped at 0.\<close>

definition slice_from :: "'a list \<Rightarrow> int \<Rightarrow> 'a list" where
  "slice_from xs i =
     (if i < 0 then drop (nat (max 0 (int (length xs) + i))) xs else drop (nat i) xs)"

definition get_history :: "('s, 'u) machine \<Rightarrow> int option \<Rightarrow> 's StateHistoryEntry list" where
  "get_history m last_n =
     (let history = state_history m in
      case last_n of None \<Rightarrow> history | Some n \<Rightarrow> slice_from history (- n))"

definition get_current_state :: "('s, 'u) machine \<Rightarrow> 's option" where
  "get_current_state m = current_state m"

definition reset :: "('s, 'u) config \<Rightarrow> ('s, 'u) machine \<Rightarrow> ('s, 'u) machine" where
  "reset cfg m = m\<lparr> current_state := Some (get_initial_state cfg), retry_counts := Map.empty \<rparr>"

subsection \<open>State execution\<close>

text \<open>
  \<^verbatim>\<open>_get_state_handler\<close>: the handler of a state is the attribute named
  \<^verbatim>\<open>_handle_<state.value.lower()>\<close>. Characters are bytes here, so \<open>lower_char\<close>
  lowers the ASCII capitals.
\<close>

fun lower_char :: "char \<Rightarrow> char" where
  "lower_char (Char b0 b1 b2 b3 b4 b5 b6 b7) =
     (let n = (of_char (Char b0 b1 b2 b3 b4 b5 b6 b7) :: nat) in
      if 65 \<le> n \<and> n \<le> 90 then Char b0 b1 b2 b3 b4 True b6 b7
      else Char b0 b1 b2 b3 b4 b5 b6 b7)"

definition handler_name :: "('s, 'u) config \<Rightarrow> 's \<Rightarrow> string" where
  "handler_name cfg s = ''_handle_'' @ map lower_char (state_value cfg s)"

definition get_state_handler ::
  "('s, 'u) config \<Rightarrow> 's \<Rightarrow> 's error + ('s, 'u) handler" where
  "get_state_handler cfg s =
     (let nm = handler_name cfg s in
      case attributes cfg nm of
        None \<Rightarrow> Inl (AttributeError nm)
      | Some h \<Rightarrow> Inr h)"

text \<open>
  \<^verbatim>\<open>time.sleep\<close> moves the clock on by the time asked for. The engine's own statements
  take no time: the clock moves in handlers and in \<open>sleep\<close> only.
\<close>

definition sleep :: "real \<Rightarrow> 'u world \<Rightarrow> 'u world" where
  "sleep d w = w\<lparr> now := now w + d \<rparr>"

text \<open>
  The \<^verbatim>\<open>while\<close> loop of \<^verbatim>\<open>_execute_state\<close>, from the last result \<open>res\<close>: it ends with
  the last result returned, or with the exception a handler raised. It need not end:
  \<open>None\<close> is a loop that runs forever.
\<close>

partial_function (option) handler_loop ::
  "('s, 'u) handler \<Rightarrow> 's StateExecutionContext \<Rightarrow> real option
    \<Rightarrow> StateResult \<Rightarrow> ('s \<times> int) list \<Rightarrow> 'u world
    \<Rightarrow> (handler_outcome \<times> ('s \<times> int) list \<times> 'u world) option" where
  "handler_loop h ctx tmo res calls w =
     (if \<not> has_timed_out ctx tmo w then
        (case h ctx w of
           (Raised e, w') \<Rightarrow>
             Some (Raised e, calls @ [(ctx_current_state ctx, ctx_retry_count ctx)], w')
         | (Returned r, w') \<Rightarrow>
             if r \<noteq> RETRY
             then Some (Returned r, calls @ [(ctx_current_state ctx, ctx_retry_count ctx)], w')
             else handler_loop h ctx tmo r
                    (calls @ [(ctx_current_state ctx, ctx_retry_count ctx)]) (sleep (1 / 10) w'))
      else Some (Returned res, calls, w))"


declare handler_loop.simps [code]

text \<open>The \<^verbatim>\<open>try\<close> block of \<^verbatim>\<open>_execute_state\<close>\<close>

definition try_block ::
  "('s, 'u) handler \<Rightarrow> 's StateExecutionContext \<Rightarrow> real option \<Rightarrow> ('s \<times> int) list
    \<Rightarrow> 'u world \<Rightarrow> (StateResult \<times> message option \<times> ('s \<times> int) list \<times> 'u world) option" where
  "try_block h ctx tmo calls w =
     (case handler_loop h ctx tmo FAILURE calls w of
        None \<Rightarrow> None
      | Some (Raised e, calls', w') \<Rightarrow> Some (FAILURE, Some (ErrorText e), calls', w')
      | Some (Returned r, calls', w') \<Rightarrow>
          if has_timed_out ctx tmo w'
          then Some (TIMEOUT, Some (TimeoutAfter tmo), calls', w')
          else Some (r, None, calls', w'))"

text \<open>\<^verbatim>\<open>self._retry_counts.get(state, 0)\<close>\<close>

definition retry_count_of :: "('s, 'u) machine \<Rightarrow> 's \<Rightarrow> int" where
  "retry_count_of m s = (case retry_counts m s of None \<Rightarrow> 0 | Some c \<Rightarrow> c)"

text \<open>
  One attempt of \<^verbatim>\<open>_execute_state\<close>, from the new context to the history entry: the
  attempt's result, with the entry appended.
\<close>

definition attempt ::
  "('s, 'u) handler \<Rightarrow> 's \<Rightarrow> 's StateMetadata \<Rightarrow> int \<Rightarrow> ('s, 'u) machine \<Rightarrow> 'u world
    \<Rightarrow> (StateResult \<times> ('s, 'u) machine \<times> 'u world) option" where
  "attempt handler s metadata retry_count m w =
     (let context = \<lparr> ctx_current_state = s, ctx_retry_count = retry_count,
                       start_time = now w \<rparr>;
          start = now w
      in
      case try_block handler context (timeout metadata) (handler_calls m) w of
        None \<Rightarrow> None
      | Some (res, msg, calls', w') \<Rightarrow>
          Some (res,
                m\<lparr> handler_calls := calls',
                   state_history := deque_append (state_history m)
                     \<lparr> entry_state = s, entry_result = res,
                       duration = now w' - start, timestamp = now w',
                       entry_retry_count = retry_count, error_message = msg \<rparr> \<rparr>,
                w'))"

text \<open>
  \<^verbatim>\<open>_execute_state\<close>: the metadata and the retry count, the handler, one attempt, then
  retry or failover. An exception that leaves the method is \<open>Inl\<close>, with the object and
  the world as they are at that moment.
\<close>

function execute_state ::
  "('s, 'u) config \<Rightarrow> 's \<Rightarrow> ('s, 'u) machine \<Rightarrow> 'u world
    \<Rightarrow> (('s error + StateResult) \<times> ('s, 'u) machine \<times> 'u world) option" where
  "execute_state cfg s m w =
     (case state_metadata m s of
        None \<Rightarrow> Some (Inl (KeyError (Some s)), m, w)
      | Some metadata \<Rightarrow>
          (let retry_count = retry_count_of m s in
           case get_state_handler cfg s of
             Inl e \<Rightarrow> Some (Inl e, m, w)
           | Inr handler \<Rightarrow>
               (case attempt handler s metadata retry_count m w of
                  None \<Rightarrow> None
                | Some (res, m1, w') \<Rightarrow>
                    if res = FAILURE \<or> res = RETRY \<or> res = TIMEOUT then
                      if retry_count < max_retries metadata then
                        execute_state cfg s
                          (m1\<lparr> retry_counts := (retry_counts m1)(s \<mapsto> retry_count + 1) \<rparr>) w'
                      else
                        (case failover_state metadata of
                           Some f \<Rightarrow>
                             Some (Inr res,
                                   m1\<lparr> current_state := Some f,
                                       retry_counts := (retry_counts m1)(s \<mapsto> 0) \<rparr>, w')
                         | None \<Rightarrow> Some (Inr res, m1, w'))
                    else if res = SUCCESS then
                      Some (Inr res, m1\<lparr> retry_counts := (retry_counts m1)(s \<mapsto> 0) \<rparr>, w')
                    else Some (Inr res, m1, w'))))"
  by pat_completeness auto
termination
  by (relation "measure (\<lambda>(cfg, s, m, w).
        nat (max_retries (the (state_metadata m s)) - retry_count_of m s))")
     (auto simp: attempt_def retry_count_of_def Let_def split: option.splits prod.splits)

declare execute_state.simps [simp del]

text \<open>\<^verbatim>\<open>_get_next_state\<close>\<close>

definition get_next_state ::
  "('s, 'u) machine \<Rightarrow> 's \<Rightarrow> StateResult \<Rightarrow> 'u world \<Rightarrow> 's option" where
  "get_next_state m cur res w =
     (case find (\<lambda>t. can_transition t w)
             (case transition_map m cur of None \<Rightarrow> [] | Some ts \<Rightarrow> ts) of
        None \<Rightarrow> None
      | Some t \<Rightarrow> Some (to_state t))"

subsection \<open>Run\<close>

text \<open>
  One pass through the body of the \<^verbatim>\<open>while\<close> loop of \<^verbatim>\<open>run\<close>: an exception, a
  \<^verbatim>\<open>break\<close>, or the end of the body (or its \<^verbatim>\<open>continue\<close>), after which \<open>steps\<close> is one
  more.
\<close>

datatype ('s, 'u) iteration =
    Raises "'s error" "('s, 'u) machine" "'u world"
  | Break "('s, 'u) machine" "'u world"
  | Continue "('s, 'u) machine" "'u world"

definition loop_body ::
  "('s, 'u) config \<Rightarrow> ('s, 'u) machine \<Rightarrow> 'u world \<Rightarrow> ('s, 'u) iteration option" where
  "loop_body cfg m w =
     (case check_watchdog m w of
        (Inl e, m0) \<Rightarrow> Some (Raises e m0 w)
      | (Inr _, m0) \<Rightarrow>
          (case current_state m0 of
             None \<Rightarrow> Some (Raises (KeyError None) m0 w)
           | Some prev_state \<Rightarrow>
               (case execute_state cfg prev_state m0 w of
                  None \<Rightarrow> None
                | Some (Inl e, m1, w1) \<Rightarrow> Some (Raises e m1 w1)
                | Some (Inr res, m1, w1) \<Rightarrow>
                    if current_state m1 \<noteq> Some prev_state then Some (Continue m1 w1)
                    else
                      (case get_next_state m1 prev_state res w1 of
                         None \<Rightarrow> Some (Break m1 w1)
                       | Some next_state \<Rightarrow>
                           Some (Continue (m1\<lparr> current_state := Some next_state \<rparr>) w1)))))"

function run_loop ::
  "('s, 'u) config \<Rightarrow> nat \<Rightarrow> ('s, 'u) machine \<Rightarrow> 'u world
    \<Rightarrow> (('s error + unit) \<times> ('s, 'u) machine \<times> 'u world) option" where
  "run_loop cfg steps m w =
     (if steps < MAX_STATES_PER_RUN then
        (case loop_body cfg m w of
           None \<Rightarrow> None
         | Some (Raises e m' w') \<Rightarrow> Some (Inl e, m', w')
         | Some (Break m' w') \<Rightarrow> Some (Inr (), m', w')
         | Some (Continue m' w') \<Rightarrow> run_loop cfg (steps + 1) m' w')
      else Some (Inr (), m, w))"
  by pat_completeness auto
termination
  by (relation "measure (\<lambda>(cfg, steps, m, w). MAX_STATES_PER_RUN - steps)") auto

declare run_loop.simps [simp del]

definition run ::
  "('s, 'u) config \<Rightarrow> ('s, 'u) machine \<Rightarrow> 'u world
    \<Rightarrow> (('s error + unit) \<times> ('s, 'u) machine \<times> 'u world) option" where
  "run cfg m w =
     (case (if \<not> initialized m then initialize cfg m else (Inr (), m)) of
        (Inl e, m0) \<Rightarrow> Some (Inl e, m0, w)
      | (Inr _, m0) \<Rightarrow> run_loop cfg 0 (m0\<lparr> retry_counts := Map.empty \<rparr>) w)"

section \<open>Predicates of the specification\<close>

text \<open>
  What makes a configuration fail validation, in the specification's words: a declared
  state without metadata, an initial state outside the state set, or a transition end
  point outside the state set. The cause names the offending state.
\<close>

definition configuration_fault :: "('s, 'u) config \<Rightarrow> 's config_cause \<Rightarrow> bool" where
  "configuration_fault cfg c =
     (case c of
        NoMetadata s \<Rightarrow> s \<in> set (define_states cfg) \<and> define_state_metadata cfg s = None
      | InitialStateNotFound i \<Rightarrow>
          i = Some (get_initial_state cfg) \<and> get_initial_state cfg \<notin> set (define_states cfg)
      | FromStateNotInEnum s \<Rightarrow>
          s \<in> from_state ` set (define_transitions cfg) \<and> s \<notin> set (define_states cfg)
      | ToStateNotInEnum s \<Rightarrow>
          s \<in> to_state ` set (define_transitions cfg) \<and> s \<notin> set (define_states cfg)
      | MaxRetriesNegative n \<Rightarrow> False
      | TimeoutNotPositive t \<Rightarrow> False)"

text \<open>
  A transition passes, in the specification's words, when its guard is absent or
  evaluates to true.
\<close>

definition guard_absent_or_true :: "('s, 'u) StateTransition \<Rightarrow> 'u world \<Rightarrow> bool" where
  "guard_absent_or_true t w =
     (case condition t of None \<Rightarrow> True | Some c \<Rightarrow> c w = GuardReturns True)"

text \<open>
  The engine after an attempt with retry index \<open>rc\<close> that called the handler once, from
  world \<open>w\<close> to world \<open>w'\<close>, and recorded result \<open>r\<close> with message \<open>msg\<close>.
\<close>

definition recorded ::
  "('s, 'u) machine \<Rightarrow> 's \<Rightarrow> int \<Rightarrow> StateResult \<Rightarrow> message option \<Rightarrow> 'u world \<Rightarrow> 'u world
    \<Rightarrow> ('s, 'u) machine" where
  "recorded m s rc r msg w w' =
     m\<lparr> handler_calls := handler_calls m @ [(s, rc)],
        state_history := deque_append (state_history m)
          \<lparr> entry_state = s, entry_result = r, duration = now w' - now w,
            timestamp = now w', entry_retry_count = rc, error_message = msg \<rparr> \<rparr>"

text \<open>
  A handler fails at retry index \<open>i\<close> of a state when, from any world, it raises, or returns
  \<open>FAILURE\<close> before the state's timeout has passed; it succeeds when it returns \<open>SUCCESS\<close>
  before the timeout has passed.
\<close>

definition in_time :: "'s StateMetadata \<Rightarrow> 'u world \<Rightarrow> 'u world \<Rightarrow> bool" where
  "in_time md w w' = (case timeout md of None \<Rightarrow> True | Some t \<Rightarrow> now w' - now w < t)"

definition fails_at :: "('s, 'u) handler \<Rightarrow> 's StateMetadata \<Rightarrow> 's \<Rightarrow> int \<Rightarrow> bool" where
  "fails_at h md s i =
     (\<forall>w. case h \<lparr> ctx_current_state = s, ctx_retry_count = i, start_time = now w \<rparr> w of
             (Returned r, w') \<Rightarrow> r = FAILURE \<and> in_time md w w'
           | (Raised e, w') \<Rightarrow> True)"

definition succeeds_at :: "('s, 'u) handler \<Rightarrow> 's StateMetadata \<Rightarrow> 's \<Rightarrow> int \<Rightarrow> bool" where
  "succeeds_at h md s i =
     (\<forall>w. case h \<lparr> ctx_current_state = s, ctx_retry_count = i, start_time = now w \<rparr> w of
             (Returned r, w') \<Rightarrow> r = SUCCESS \<and> in_time md w w'
           | (Raised e, w') \<Rightarrow> False)"

text \<open>
  The engine after the failed attempts with retry indices \<open>r\<close> to \<open>n - 1\<close> of a state: one
  handler call and one \<open>FAILURE\<close> entry for each, and the retry count at \<open>n\<close>.
\<close>

definition failed_attempts ::
  "('s, 'u) machine \<Rightarrow> 's \<Rightarrow> int \<Rightarrow> int \<Rightarrow> ('s, 'u) machine \<Rightarrow> bool" where
  "failed_attempts m s r n m1 =
     (\<exists>es. m1 = m\<lparr> handler_calls := handler_calls m @ map (Pair s) [r..n - 1],
                    state_history := foldl deque_append (state_history m) es,
                    retry_counts := (if r < n then (retry_counts m)(s \<mapsto> n)
                                     else retry_counts m) \<rparr> \<and>
           map entry_result es = replicate (nat (n - r)) FAILURE \<and>
           map entry_retry_count es = [r..n - 1] \<and>
           (\<forall>e \<in> set es. entry_state e = s))"

section \<open>Example machines (tests/test_machine.py)\<close>

text \<open>
  The tests' Enum \<^verbatim>\<open>Steps\<close>, with the member \<open>OtherX\<close> of their second Enum
  \<^verbatim>\<open>Other\<close>, which is never among the declared states.
\<close>

datatype Steps = A | B | C | ERROR | OtherX

fun steps_value :: "Steps \<Rightarrow> string" where
  "steps_value A = ''a''"
| "steps_value B = ''b''"
| "steps_value C = ''c''"
| "steps_value ERROR = ''error''"
| "steps_value OtherX = ''x''"

definition meta :: "string \<Rightarrow> Steps StateMetadata" where
  "meta nm = \<lparr> name = nm, description = '''', max_retries = 3, timeout = None,
               failover_state = None \<rparr>"

definition all_meta :: "Steps \<rightharpoonup> Steps StateMetadata" where
  "all_meta = [A \<mapsto> meta ''A'', B \<mapsto> meta ''B'', C \<mapsto> meta ''C'', ERROR \<mapsto> meta ''ERROR'']"

definition transition :: "Steps \<Rightarrow> Steps \<Rightarrow> (Steps, unit) StateTransition" where
  "transition a b = \<lparr> from_state = a, to_state = b, condition = None \<rparr>"

definition returning :: "StateResult \<Rightarrow> (Steps, unit) handler" where
  "returning r ctx w = (Returned r, w)"

definition all_succeed :: "string \<rightharpoonup> (Steps, unit) handler" where
  "all_succeed = [''_handle_a'' \<mapsto> returning SUCCESS, ''_handle_b'' \<mapsto> returning SUCCESS,
     ''_handle_c'' \<mapsto> returning SUCCESS, ''_handle_error'' \<mapsto> returning SUCCESS]"

definition simple_machine ::
  "(Steps \<rightharpoonup> Steps StateMetadata) \<Rightarrow> (Steps, unit) StateTransition list
    \<Rightarrow> (string \<rightharpoonup> (Steps, unit) handler) \<Rightarrow> (Steps, unit) config" where
  "simple_machine mds ts hs =
     \<lparr> define_states = [A, B, C, ERROR], define_state_metadata = mds,
       define_transitions = ts, get_initial_state = A, state_value = steps_value,
       attributes = hs \<rparr>"

definition chain :: "(Steps, unit) config" where
  "chain = simple_machine all_meta [transition A B, transition B C] all_succeed"

definition no_metadata :: "(Steps, unit) config" where
  "no_metadata = simple_machine Map.empty [] all_succeed"

definition world0 :: "unit world" where
  "world0 = \<lparr> now = 0, ext = () \<rparr>"

definition succeeded :: "Steps \<Rightarrow> Steps StateHistoryEntry" where
  "succeeded s = \<lparr> entry_state = s, entry_result = SUCCESS, duration = 0, timestamp = 0,
                    entry_retry_count = 0, error_message = None \<rparr>"

definition after_chain :: "(Steps, unit) machine" where
  "after_chain = (init_machine 0)\<lparr> state_history := [succeeded A, succeeded B, succeeded C] \<rparr>"

definition guarded ::
  "Steps \<Rightarrow> Steps \<Rightarrow> (unit world \<Rightarrow> guard_outcome) \<Rightarrow> (Steps, unit) StateTransition" where
  "guarded a b c = \<lparr> from_state = a, to_state = b, condition = Some c \<rparr>"

definition branching :: "(Steps, unit) StateTransition list" where
  "branching = [guarded A B (\<lambda>w. GuardRaises), transition B C,
                guarded A C (\<lambda>w. GuardReturns False), transition A ERROR, transition A B]"

definition idle_machine :: "(Steps, unit) machine" where
  "idle_machine = (enable_watchdog (1 / 1000) (snd (initialize chain (init_machine 0))) world0)
                    \<lparr> watchdog_last_activity := - 10 \<rparr>"

definition slow :: "real \<Rightarrow> StateResult \<Rightarrow> (Steps, unit) handler" where
  "slow d r ctx w = (Returned r, w\<lparr> now := now w + d \<rparr>)"

definition with_meta ::
  "Steps \<Rightarrow> Steps StateMetadata \<Rightarrow> (Steps \<rightharpoonup> Steps StateMetadata)" where
  "with_meta s md = all_meta(s \<mapsto> md)"

definition with_handler ::
  "string \<Rightarrow> (Steps, unit) handler \<Rightarrow> (string \<rightharpoonup> (Steps, unit) handler)" where
  "with_handler nm h = all_succeed(nm \<mapsto> h)"

definition fresh :: "(Steps, unit) machine" where
  "fresh = init_machine 0"

definition slow_meta :: "Steps StateMetadata" where
  "slow_meta = (meta ''A'')\<lparr> max_retries := 0, timeout := Some (1 / 2) \<rparr>"

definition no_handler_a :: "(Steps, unit) config" where
  "no_handler_a = simple_machine all_meta [] (all_succeed(''_handle_a'' := None))"

definition branching_cfg :: "(Steps, unit) config" where
  "branching_cfg = simple_machine all_meta branching all_succeed"

text \<open>
  The engine that \<open>initialize\<close> makes of a new object for \<open>simple_machine mds ts hs\<close>, when
  the configuration validates (lemma \<open>initialize_simple\<close> below).
\<close>

definition configured ::
  "(Steps \<rightharpoonup> Steps StateMetadata) \<Rightarrow> (Steps, unit) StateTransition list
    \<Rightarrow> (Steps, unit) machine" where
  "configured mds ts =
     fresh\<lparr> states := Some [A, B, C, ERROR], state_metadata := mds, transitions := ts,
            current_state := Some A,
            transition_map := build_transition_map ts Map.empty, initialized := True \<rparr>"

definition at_state :: "Steps \<Rightarrow> (Steps, unit) machine \<Rightarrow> (Steps, unit) machine" where
  "at_state s m = m\<lparr> current_state := Some s \<rparr>"

definition succeed_from :: "int \<Rightarrow> (Steps, unit) handler" where
  "succeed_from k ctx w =
     (Returned (if ctx_retry_count ctx \<ge> k then SUCCESS else FAILURE), w)"

definition retried_meta :: "Steps StateMetadata" where
  "retried_meta = (meta ''A'')\<lparr> max_retries := 2 \<rparr>"

definition retried_cfg :: "(Steps, unit) config" where
  "retried_cfg = simple_machine (with_meta A retried_meta) []
                   (with_handler ''_handle_a'' (succeed_from 2))"

definition self_failover_meta :: "Steps StateMetadata" where
  "self_failover_meta = (meta ''A'')\<lparr> max_retries := 0, failover_state := Some A \<rparr>"

definition self_failover_cfg :: "(Steps, unit) config" where
  "self_failover_cfg = simple_machine (with_meta A self_failover_meta) [transition A B]
                         (with_handler ''_handle_a'' (returning FAILURE))"

definition self_failover_start :: "(Steps, unit) machine" where
  "self_failover_start = configured (with_meta A self_failover_meta) [transition A B]"

definition self_failover_failed :: "(Steps, unit) machine" where
  "self_failover_failed =
     (recorded self_failover_start A 0 FAILURE None world0 world0)
       \<lparr> current_state := Some A, retry_counts := [A \<mapsto> 0] \<rparr>"

definition failover_meta :: "Steps StateMetadata" where
  "failover_meta = (meta ''A'')\<lparr> max_retries := 1, failover_state := Some ERROR \<rparr>"

definition failover_cfg :: "(Steps, unit) config" where
  "failover_cfg = simple_machine (with_meta A failover_meta) [transition A B]
                    (with_handler ''_handle_a'' (returning FAILURE))"

definition failover_start :: "(Steps, unit) machine" where
  "failover_start = configured (with_meta A failover_meta) [transition A B]"

definition timed_failover_meta :: "Steps StateMetadata" where
  "timed_failover_meta = slow_meta\<lparr> failover_state := Some ERROR \<rparr>"

definition timed_failover_cfg :: "(Steps, unit) config" where
  "timed_failover_cfg = simple_machine (with_meta A timed_failover_meta) [transition A B]
                          (with_handler ''_handle_a'' (slow 1 SUCCESS))"

definition timed_failover_start :: "(Steps, unit) machine" where
  "timed_failover_start = configured (with_meta A timed_failover_meta) [transition A B]"

definition timed_out :: "(Steps, unit) machine" where
  "timed_out =
     timed_failover_start
       \<lparr> handler_calls := [(A, 0)],
         state_history :=
           [\<lparr> entry_state = A, entry_result = TIMEOUT, duration = 1, timestamp = 1,
              entry_retry_count = 0, error_message = Some (TimeoutAfter (Some (1 / 2))) \<rparr>] \<rparr>"

section \<open>Facts about the examples\<close>

lemma chain_initialize:
  "initialize chain (init_machine 0) =
     (Inr (), (init_machine 0)\<lparr> states := Some [A, B, C, ERROR], state_metadata := all_meta,
        transitions := [transition A B, transition B C], current_state := Some A,
        transition_map := [A \<mapsto> [transition A B], B \<mapsto> [transition B C]],
        initialized := True \<rparr>)"
  by (simp add: initialize_def chain_def simple_machine_def init_machine_def validate_def
      all_meta_def transition_def Let_def)

lemma initialize_simple:
  assumes "mds A \<noteq> None" and "mds B \<noteq> None" and "mds C \<noteq> None" and "mds ERROR \<noteq> None"
    and "validate_transitions [A, B, C, ERROR] ts = None"
  shows "initialize (simple_machine mds ts hs) fresh = (Inr (), configured mds ts)"
  using assms
  by (simp add: initialize_def simple_machine_def validate_def fresh_def init_machine_def
      configured_def Let_def)

lemma handler_name_simple [simp]:
  "handler_name (simple_machine mds ts hs) A = ''_handle_a''"
  "handler_name (simple_machine mds ts hs) B = ''_handle_b''"
  "handler_name (simple_machine mds ts hs) C = ''_handle_c''"
  "handler_name (simple_machine mds ts hs) ERROR = ''_handle_error''"
  by (simp_all add: handler_name_def simple_machine_def)

lemma check_watchdog_configured:
  "check_watchdog (configured mds ts) w = (Inr (), configured mds ts)"
  by (simp add: check_watchdog_def configured_def fresh_def init_machine_def)

section \<open>Initialisation is idempotent\<close>

text \<open>
  C8: when a call of \<open>initialize\<close> returns normally, a second call returns normally too
  and leaves the engine exactly as the first call left it.
\<close>

theorem initialize_idempotent:
  assumes "fst (initialize cfg m) = Inr ()"
  shows "initialize cfg (snd (initialize cfg m)) = (Inr (), snd (initialize cfg m))"
  using assms
  by (auto simp: initialize_def Let_def split: if_splits option.splits)

theorem initialize_idempotent_witness:
  "fst (initialize chain (init_machine 0)) = Inr () \<and>
   \<not> initialized (init_machine 0 :: (Steps, unit) machine) \<and>
   initialized (snd (initialize chain (init_machine 0))) \<and>
   initialize chain (snd (initialize chain (init_machine 0)))
     = (Inr (), snd (initialize chain (init_machine 0)))"
proof -
  have ok: "fst (initialize chain (init_machine 0)) = Inr ()"
    by (simp add: chain_initialize)
  show ?thesis
    using ok initialize_idempotent [OF ok]
    by (simp add: chain_initialize) (simp add: init_machine_def)
qed

section \<open>History queries\<close>

text \<open>
  C10: \<open>get_history\<close> with \<open>last_n = 0\<close> returns the whole history, as with no argument
  (Python's \<^verbatim>\<open>history[-0:]\<close> is \<^verbatim>\<open>history[0:]\<close>); with \<open>last_n \<ge> 1\<close> it returns the last
  \<open>min last_n (length history)\<close> entries, in order.
\<close>

theorem get_history_last_n:
  "get_history m None = state_history m \<and>
   get_history m (Some 0) = get_history m None \<and>
   (1 \<le> n \<longrightarrow>
      get_history m (Some n)
        = drop (length (state_history m) - min (nat n) (length (state_history m)))
            (state_history m) \<and>
      length (get_history m (Some n)) = min (nat n) (length (state_history m)))"
proof -
  have "nat (max 0 (int (length (state_history m)) - n))
          = length (state_history m) - min (nat n) (length (state_history m))" if "1 \<le> n"
    using that by linarith
  then show ?thesis
    by (auto simp: get_history_def slice_from_def Let_def)
qed

theorem get_history_last_n_witness:
  "(1::int) \<le> 2 \<and>
   get_history after_chain (Some 0) = [succeeded A, succeeded B, succeeded C] \<and>
   get_history after_chain (Some 2) = [succeeded B, succeeded C] \<and>
   length (get_history after_chain (Some 2)) = 2"
  using get_history_last_n [of after_chain 2]
  by (simp add: after_chain_def)

section \<open>Failed validation\<close>

lemma validate_metadata_Some:
  "validate_metadata sts mds = Some e \<Longrightarrow>
     \<exists>s. e = ValueError (NoMetadata s) \<and> s \<in> set sts \<and> mds s = None"
  by (induction sts) (auto split: if_splits)

lemma validate_metadata_None:
  "validate_metadata sts mds = None \<longleftrightarrow> (\<forall>s \<in> set sts. mds s \<noteq> None)"
  by (induction sts) auto

lemma validate_transitions_Some:
  "validate_transitions sts ts = Some e \<Longrightarrow>
     (\<exists>s. e = ValueError (FromStateNotInEnum s) \<and> s \<in> from_state ` set ts \<and> s \<notin> set sts) \<or>
     (\<exists>s. e = ValueError (ToStateNotInEnum s) \<and> s \<in> to_state ` set ts \<and> s \<notin> set sts)"
  by (induction ts) (auto split: if_splits)

lemma validate_transitions_None:
  "validate_transitions sts ts = None \<longleftrightarrow>
     (\<forall>t \<in> set ts. from_state t \<in> set sts \<and> to_state t \<in> set sts)"
  by (induction ts) auto

lemma initialize_Inl:
  assumes "fst (initialize cfg m) = Inl e"
  shows "\<exists>c. e = ValueError c \<and> configuration_fault cfg c"
proof -
  let ?m1 = "m\<lparr> states := Some (define_states cfg),
                 state_metadata := define_state_metadata cfg,
                 transitions := define_transitions cfg,
                 current_state := Some (get_initial_state cfg),
                 transition_map := build_transition_map (define_transitions cfg) Map.empty \<rparr>"
  from assms have v: "validate ?m1 = Some e"
    by (auto simp: initialize_def Let_def split: if_splits option.splits)
  show ?thesis
  proof (cases "validate_metadata (define_states cfg) (define_state_metadata cfg)")
    case (Some e')
    with v have "e' = e" by (simp add: validate_def)
    with Some validate_metadata_Some [of "define_states cfg" "define_state_metadata cfg" e]
    show ?thesis by (auto simp: configuration_fault_def)
  next
    case None
    show ?thesis
    proof (cases "get_initial_state cfg \<in> set (define_states cfg)")
      case False
      with None v show ?thesis
        by (auto simp: validate_def configuration_fault_def image_iff)
    next
      case True
      with None v have "validate_transitions (define_states cfg) (define_transitions cfg) = Some e"
        by (auto simp: validate_def image_iff split: if_splits)
      from validate_transitions_Some [OF this] show ?thesis
        by (auto simp: configuration_fault_def)
    qed
  qed
qed

lemma initialize_fault:
  assumes "configuration_fault cfg c" and "\<not> initialized m"
  shows "\<exists>e. fst (initialize cfg m) = Inl e"
proof -
  from assms(1) have
    "validate_metadata (define_states cfg) (define_state_metadata cfg) \<noteq> None \<or>
     get_initial_state cfg \<notin> set (define_states cfg) \<or>
     validate_transitions (define_states cfg) (define_transitions cfg) \<noteq> None"
    unfolding validate_metadata_None validate_transitions_None
    by (cases c) (auto simp: configuration_fault_def)
  with assms(2) show ?thesis
    by (auto simp: initialize_def validate_def Let_def split: option.splits)
qed

text \<open>
  C3, as amended: on an engine not yet initialised, a configuration with a fault makes
  \<open>initialize\<close> raise a \<open>ValueError\<close> whose cause is a fault of the configuration (the
  first one the checks meet); the engine is left not initialised, with its states,
  metadata, transitions, current state and transition map overwritten by the rejected
  configuration and every other field as it was; and a later \<open>initialize\<close> with a
  configuration that validates gives exactly what it would have given without the
  failed call.
\<close>

theorem initialize_failure:
  assumes "configuration_fault cfg c" and "\<not> initialized m"
  shows "(\<exists>c'. fst (initialize cfg m) = Inl (ValueError c') \<and> configuration_fault cfg c') \<and>
         snd (initialize cfg m)
           = m\<lparr> states := Some (define_states cfg),
                 state_metadata := define_state_metadata cfg,
                 transitions := define_transitions cfg,
                 current_state := Some (get_initial_state cfg),
                 transition_map := build_transition_map (define_transitions cfg) Map.empty \<rparr> \<and>
         \<not> initialized (snd (initialize cfg m)) \<and>
         (fst (initialize cfg' m) = Inr () \<longrightarrow>
            initialize cfg' (snd (initialize cfg m)) = initialize cfg' m)"
proof -
  from initialize_fault [OF assms] obtain e where e: "fst (initialize cfg m) = Inl e"
    by blast
  from e have shape: "snd (initialize cfg m)
           = m\<lparr> states := Some (define_states cfg),
                 state_metadata := define_state_metadata cfg,
                 transitions := define_transitions cfg,
                 current_state := Some (get_initial_state cfg),
                 transition_map := build_transition_map (define_transitions cfg) Map.empty \<rparr>"
    by (auto simp: initialize_def Let_def split: if_splits option.splits)
  have again: "initialize cfg' (snd (initialize cfg m)) = initialize cfg' m"
    unfolding shape using assms(2) by (simp add: initialize_def)
  from initialize_Inl [OF e] e have
    "\<exists>c'. fst (initialize cfg m) = Inl (ValueError c') \<and> configuration_fault cfg c'"
    by auto
  with shape assms(2) again show ?thesis
    by simp
qed

theorem initialize_failure_witness:
  "configuration_fault no_metadata (NoMetadata B) \<and>
   \<not> initialized (init_machine 0 :: (Steps, unit) machine) \<and>
   fst (initialize no_metadata (init_machine 0)) = Inl (ValueError (NoMetadata A)) \<and>
   \<not> initialized (snd (initialize no_metadata (init_machine 0))) \<and>
   fst (initialize chain (init_machine 0)) = Inr () \<and>
   initialize chain (snd (initialize no_metadata (init_machine 0)))
     = initialize chain (init_machine 0)"
proof -
  have fault: "configuration_fault no_metadata (NoMetadata B)"
    by (simp add: configuration_fault_def no_metadata_def simple_machine_def)
  have fresh: "\<not> initialized (init_machine 0 :: (Steps, unit) machine)"
    by (simp add: init_machine_def)
  have bad: "fst (initialize no_metadata (init_machine 0)) = Inl (ValueError (NoMetadata A))"
    by (simp add: initialize_def no_metadata_def simple_machine_def init_machine_def
        validate_def Let_def)
  have good: "fst (initialize chain (init_machine 0)) = Inr ()"
    by (simp add: chain_initialize)
  from initialize_failure [OF fault fresh, of chain] good
  have "\<not> initialized (snd (initialize no_metadata (init_machine 0)))"
    and "initialize chain (snd (initialize no_metadata (init_machine 0)))
           = initialize chain (init_machine 0)"
    by blast+
  with fault fresh bad good show ?thesis
    by blast
qed

text \<open>
  The failed call is visible: before it the current state is unset, after it
  \<open>get_current_state\<close> returns the configured initial state.
\<close>

theorem initialize_failure_mutates:
  "fst (initialize no_metadata (init_machine 0)) = Inl (ValueError (NoMetadata A)) \<and>
   get_current_state (init_machine 0 :: (Steps, unit) machine) = None \<and>
   get_current_state (snd (initialize no_metadata (init_machine 0))) = Some A"
  by (simp add: initialize_def no_metadata_def simple_machine_def init_machine_def
      validate_def Let_def get_current_state_def)

section \<open>Watchdog\<close>

lemma check_watchdog_idle:
  assumes "watchdog_timeout m = Some t" and "now w - watchdog_last_activity m \<ge> t"
  shows "check_watchdog m w = (Inl (RuntimeError (now w - watchdog_last_activity m) t), m)"
  using assms by (simp add: check_watchdog_def)

text \<open>
  C7: with the watchdog enabled at threshold \<open>t\<close>, a pass of the run loop that starts
  with an idle time of at least \<open>t\<close> raises the watchdog's \<open>RuntimeError\<close> and leaves the
  engine and the world untouched (the current state is not executed), and so does the run
  loop. Enabling sets the threshold and starts the idle clock; \<open>record_activity\<close> restarts
  the idle clock and clears the warning flag, so that a check made less than \<open>t\<close> after it
  does not raise. With no threshold set the check never raises.
\<close>

theorem watchdog_aborts_when_idle:
  "(watchdog_timeout m = Some t \<and> now w - watchdog_last_activity m \<ge> t \<longrightarrow>
      loop_body cfg m w = Some (Raises (RuntimeError (now w - watchdog_last_activity m) t) m w) \<and>
      (steps < MAX_STATES_PER_RUN \<longrightarrow>
         run_loop cfg steps m w
           = Some (Inl (RuntimeError (now w - watchdog_last_activity m) t), m, w))) \<and>
   watchdog_timeout (enable_watchdog t m w0) = Some t \<and>
   watchdog_last_activity (enable_watchdog t m w0) = now w0 \<and>
   watchdog_timeout (record_activity m w0) = watchdog_timeout m \<and>
   watchdog_last_activity (record_activity m w0) = now w0 \<and>
   \<not> watchdog_warned (record_activity m w0) \<and>
   (watchdog_timeout m = Some t \<and> now w - now w0 < t \<longrightarrow>
      fst (check_watchdog (record_activity m w0) w) = Inr ()) \<and>
   (watchdog_timeout m = None \<longrightarrow> check_watchdog m w = (Inr (), m))"
proof -
  have body: "loop_body cfg m w
                = Some (Raises (RuntimeError (now w - watchdog_last_activity m) t) m w)"
    if "watchdog_timeout m = Some t" and "now w - watchdog_last_activity m \<ge> t"
    using check_watchdog_idle [OF that] by (simp add: loop_body_def)
  have loop: "run_loop cfg steps m w
                = Some (Inl (RuntimeError (now w - watchdog_last_activity m) t), m, w)"
    if "watchdog_timeout m = Some t" and "now w - watchdog_last_activity m \<ge> t"
      and "steps < MAX_STATES_PER_RUN"
    using body [OF that(1,2)] that(3) by (simp add: run_loop.simps)
  have rec: "fst (check_watchdog (record_activity m w0) w) = Inr ()"
    if "watchdog_timeout m = Some t" and "now w - now w0 < t"
    using that by (simp add: check_watchdog_def record_activity_def Let_def)
  have off: "check_watchdog m w = (Inr (), m)" if "watchdog_timeout m = None"
    using that by (simp add: check_watchdog_def)
  from body loop rec off show ?thesis
    by (simp add: enable_watchdog_def record_activity_def)
qed

theorem watchdog_aborts_when_idle_witness:
  "watchdog_timeout idle_machine = Some (1 / 1000) \<and>
   now world0 - watchdog_last_activity idle_machine \<ge> 1 / 1000 \<and>
   (0::nat) < MAX_STATES_PER_RUN \<and>
   run_loop chain 0 idle_machine world0 = Some (Inl (RuntimeError 10 (1 / 1000)), idle_machine, world0) \<and>
   now world0 - now world0 < 1 / 1000 \<and>
   fst (check_watchdog (record_activity idle_machine world0) world0) = Inr () \<and>
   watchdog_timeout (init_machine 0 :: (Steps, unit) machine) = None \<and>
   check_watchdog (init_machine 0 :: (Steps, unit) machine) (world0\<lparr> now := 99999 \<rparr>)
     = (Inr (), init_machine 0)"
proof -
  have t: "watchdog_timeout idle_machine = Some (1 / 1000)"
    by (simp add: idle_machine_def enable_watchdog_def)
  have idle: "now world0 - watchdog_last_activity idle_machine = 10"
    by (simp add: idle_machine_def world0_def)
  have cap: "(0::nat) < MAX_STATES_PER_RUN"
    by (simp add: MAX_STATES_PER_RUN_def)
  have off: "watchdog_timeout (init_machine 0 :: (Steps, unit) machine) = None"
    by (simp add: init_machine_def)
  from watchdog_aborts_when_idle
         [of idle_machine "1 / 1000" world0 chain 0 world0] t idle cap
  have a: "run_loop chain 0 idle_machine world0
             = Some (Inl (RuntimeError 10 (1 / 1000)), idle_machine, world0)"
    and b: "fst (check_watchdog (record_activity idle_machine world0) world0) = Inr ()"
    by simp_all
  from watchdog_aborts_when_idle
         [of "init_machine 0 :: (Steps, unit) machine" 0 "world0\<lparr> now := 99999 \<rparr>"] off
  have c: "check_watchdog (init_machine 0 :: (Steps, unit) machine) (world0\<lparr> now := 99999 \<rparr>)
             = (Inr (), init_machine 0)"
    by simp
  from t idle cap off a b c show ?thesis
    by simp
qed

section \<open>Next-state selection\<close>

lemma build_transition_map_lookup:
  "(case build_transition_map ts tm s of None \<Rightarrow> [] | Some l \<Rightarrow> l)
     = (case tm s of None \<Rightarrow> [] | Some l \<Rightarrow> l) @ filter (\<lambda>t. from_state t = s) ts"
  by (induction ts arbitrary: tm) auto

lemma find_filter: "find P (filter Q xs) = find (\<lambda>x. Q x \<and> P x) xs"
  by (induction xs) auto

lemma can_transition_iff: "can_transition t w = guard_absent_or_true t w"
  by (auto simp: can_transition_def guard_absent_or_true_def
      split: option.splits guard_outcome.splits)

lemma get_next_state_declared:
  assumes "transition_map m = build_transition_map ts Map.empty"
  shows "get_next_state m s res w
           = map_option to_state
               (find (\<lambda>t. from_state t = s \<and> guard_absent_or_true t w) ts)"
proof -
  have "(case transition_map m s of None \<Rightarrow> [] | Some l \<Rightarrow> l)
          = filter (\<lambda>t. from_state t = s) ts"
    unfolding assms using build_transition_map_lookup [of ts Map.empty s] by simp
  then show ?thesis
    by (simp add: get_next_state_def find_filter can_transition_iff [abs_def]
        split: option.splits)
qed

lemma check_watchdog_keeps:
  assumes "check_watchdog m w = (Inr u, m0)"
  shows "current_state m0 = current_state m"
  using assms
  by (auto simp: check_watchdog_def Let_def split: option.splits if_splits)

text \<open>
  C4: with the transition map built by \<open>initialize\<close> from the declared list \<open>ts\<close>,
  \<open>get_next_state\<close> returns the target of the first transition of \<open>ts\<close>, in declaration
  order, that leaves the given state and whose guard is absent or evaluates to true; a
  guard that raises counts as false; when no transition passes the selection returns
  nothing, and a pass of the run loop that executed the state without failover then ends
  the run normally.
\<close>

theorem next_state_first_passing:
  assumes "transition_map m = build_transition_map ts Map.empty"
  shows "get_next_state m s res w
           = map_option to_state
               (find (\<lambda>t. from_state t = s \<and> guard_absent_or_true t w) ts) \<and>
         (condition t = Some c \<and> c w = GuardRaises \<longrightarrow>
            \<not> can_transition t w \<and> \<not> guard_absent_or_true t w) \<and>
         ((\<forall>t \<in> set ts. from_state t = s \<longrightarrow> \<not> guard_absent_or_true t w) \<longrightarrow>
            get_next_state m s res w = None) \<and>
         (check_watchdog m w = (Inr (), m0) \<and> current_state m = Some s \<and>
          execute_state cfg s m0 w = Some (Inr res', m1, w1) \<and> current_state m1 = Some s \<and>
          get_next_state m1 s res' w1 = None \<and> steps < MAX_STATES_PER_RUN \<longrightarrow>
            run_loop cfg steps m w = Some (Inr (), m1, w1))"
proof -
  have sel: "get_next_state m s res w
           = map_option to_state
               (find (\<lambda>t. from_state t = s \<and> guard_absent_or_true t w) ts)"
    by (rule get_next_state_declared [OF assms])
  have none: "get_next_state m s res w = None"
    if "\<forall>t \<in> set ts. from_state t = s \<longrightarrow> \<not> guard_absent_or_true t w"
    using that unfolding sel by (simp add: find_None_iff)
  have raises: "\<not> can_transition t w \<and> \<not> guard_absent_or_true t w"
    if "condition t = Some c" and "c w = GuardRaises"
    using that by (simp add: can_transition_def guard_absent_or_true_def)
  have halt: "run_loop cfg steps m w = Some (Inr (), m1, w1)"
    if wd: "check_watchdog m w = (Inr (), m0)" and cur: "current_state m = Some s"
      and ex: "execute_state cfg s m0 w = Some (Inr res', m1, w1)"
      and same: "current_state m1 = Some s"
      and nxt: "get_next_state m1 s res' w1 = None" and cap: "steps < MAX_STATES_PER_RUN"
  proof -
    from check_watchdog_keeps [OF wd] cur have "current_state m0 = Some s" by simp
    with wd ex same nxt have "loop_body cfg m w = Some (Break m1 w1)"
      by (simp add: loop_body_def)
    with cap show ?thesis by (simp add: run_loop.simps)
  qed
  from sel none raises halt show ?thesis by blast
qed


section \<open>The handler loop and the timeout\<close>

lemma handler_loop_timed_out:
  "has_timed_out ctx tmo w \<Longrightarrow> handler_loop h ctx tmo res calls w = Some (Returned res, calls, w)"
  by (subst handler_loop.simps) simp

lemma handler_loop_returned:
  "\<not> has_timed_out ctx tmo w \<Longrightarrow> h ctx w = (Returned r, w') \<Longrightarrow> r \<noteq> RETRY \<Longrightarrow>
     handler_loop h ctx tmo res calls w
       = Some (Returned r, calls @ [(ctx_current_state ctx, ctx_retry_count ctx)], w')"
  by (subst handler_loop.simps) simp

lemma handler_loop_raised:
  "\<not> has_timed_out ctx tmo w \<Longrightarrow> h ctx w = (Raised e, w') \<Longrightarrow>
     handler_loop h ctx tmo res calls w
       = Some (Raised e, calls @ [(ctx_current_state ctx, ctx_retry_count ctx)], w')"
  by (subst handler_loop.simps) simp

lemma handler_loop_retry:
  "\<not> has_timed_out ctx tmo w \<Longrightarrow> h ctx w = (Returned RETRY, w') \<Longrightarrow>
     handler_loop h ctx tmo res calls w
       = handler_loop h ctx tmo RETRY
           (calls @ [(ctx_current_state ctx, ctx_retry_count ctx)]) (sleep (1 / 10) w')"
  by (subst handler_loop.simps) simp

text \<open>
  C5: when the handler loop of an attempt ends without an exception and the context has
  then timed out against a finite timeout \<open>t\<close>, the attempt's result and history entry
  are \<open>TIMEOUT\<close>, with the synthesized message, whatever result \<open>r\<close> the handler
  returned last. With no timeout the predicate is false, and the result recorded is the
  handler's.
\<close>

theorem timeout_overrides_result:
  "(timeout md = Some t \<and>
    handler_loop h \<lparr> ctx_current_state = s, ctx_retry_count = rc, start_time = now w \<rparr>
        (Some t) FAILURE (handler_calls m) w = Some (Returned r, calls', w') \<and>
    now w' - now w \<ge> t \<longrightarrow>
      attempt h s md rc m w
        = Some (TIMEOUT,
                m\<lparr> handler_calls := calls',
                   state_history := deque_append (state_history m)
                     \<lparr> entry_state = s, entry_result = TIMEOUT,
                       duration = now w' - now w, timestamp = now w',
                       entry_retry_count = rc,
                       error_message = Some (TimeoutAfter (Some t)) \<rparr> \<rparr>,
                w')) \<and>
   \<not> has_timed_out ctx None w \<and>
   (timeout md = None \<and>
    handler_loop h \<lparr> ctx_current_state = s, ctx_retry_count = rc, start_time = now w \<rparr>
        None FAILURE (handler_calls m) w = Some (Returned r, calls', w') \<longrightarrow>
      attempt h s md rc m w
        = Some (r,
                m\<lparr> handler_calls := calls',
                   state_history := deque_append (state_history m)
                     \<lparr> entry_state = s, entry_result = r,
                       duration = now w' - now w, timestamp = now w',
                       entry_retry_count = rc, error_message = None \<rparr> \<rparr>,
                w'))"
  by (simp add: attempt_def try_block_def has_timed_out_def elapsed_time_def Let_def)

lemma slow_loop:
  "handler_loop (slow 1 SUCCESS)
      \<lparr> ctx_current_state = A, ctx_retry_count = 0, start_time = now world0 \<rparr>
      (Some (1 / 2)) FAILURE [] world0
     = Some (Returned SUCCESS, [(A, 0)], world0\<lparr> now := 1 \<rparr>)"
  by (subst handler_loop_returned [where r = SUCCESS and w' = "world0\<lparr> now := 1 \<rparr>"])
     (simp_all add: has_timed_out_def elapsed_time_def slow_def world0_def)

theorem timeout_overrides_result_witness:
  "timeout slow_meta = Some (1 / 2) \<and>
   handler_loop (slow 1 SUCCESS)
      \<lparr> ctx_current_state = A, ctx_retry_count = 0, start_time = now world0 \<rparr>
      (Some (1 / 2)) FAILURE (handler_calls fresh) world0
     = Some (Returned SUCCESS, [(A, 0)], world0\<lparr> now := 1 \<rparr>) \<and>
   now (world0\<lparr> now := 1 \<rparr>) - now world0 \<ge> 1 / 2 \<and>
   map_option fst (attempt (slow 1 SUCCESS) A slow_meta 0 fresh world0) = Some TIMEOUT \<and>
   map_option (map entry_result \<circ> state_history \<circ> fst \<circ> snd)
       (attempt (slow 1 SUCCESS) A slow_meta 0 fresh world0) = Some [TIMEOUT]"
proof -
  have t: "timeout slow_meta = Some (1 / 2)"
    by (simp add: slow_meta_def)
  have l: "handler_loop (slow 1 SUCCESS)
      \<lparr> ctx_current_state = A, ctx_retry_count = 0, start_time = now world0 \<rparr>
      (Some (1 / 2)) FAILURE (handler_calls fresh) world0
     = Some (Returned SUCCESS, [(A, 0)], world0\<lparr> now := 1 \<rparr>)"
    using slow_loop by (simp add: fresh_def init_machine_def)
  have late: "now (world0\<lparr> now := 1 \<rparr>) - now world0 \<ge> 1 / 2"
    by (simp add: world0_def)
  from timeout_overrides_result
         [where md = slow_meta and t = "1 / 2" and h = "slow 1 SUCCESS" and s = A and rc = 0
            and w = world0 and m = fresh and r = SUCCESS and calls' = "[(A, 0)]"
            and w' = "world0\<lparr> now := 1 \<rparr>"
            and ctx = "\<lparr> ctx_current_state = A, ctx_retry_count = 0, start_time = 0 \<rparr>"]
       t l late
  have "attempt (slow 1 SUCCESS) A slow_meta 0 fresh world0
        = Some (TIMEOUT,
                fresh\<lparr> handler_calls := [(A, 0)],
                   state_history := deque_append (state_history fresh)
                     \<lparr> entry_state = A, entry_result = TIMEOUT,
                       duration = now (world0\<lparr> now := 1 \<rparr>) - now world0,
                       timestamp = now (world0\<lparr> now := 1 \<rparr>),
                       entry_retry_count = 0,
                       error_message = Some (TimeoutAfter (Some (1 / 2))) \<rparr> \<rparr>,
                world0\<lparr> now := 1 \<rparr>)"
    by simp
  with t l late show ?thesis
    by (simp add: fresh_def init_machine_def deque_append_def)
qed

section \<open>Attempts, retries and failover\<close>

lemma attempt_returned:
  assumes "h \<lparr> ctx_current_state = s, ctx_retry_count = rc, start_time = now w \<rparr> w
             = (Returned r, w')"
    and "r \<noteq> RETRY"
    and "\<And>t. timeout md = Some t \<Longrightarrow> 0 < t \<and> now w' - now w < t"
  shows "attempt h s md rc m w = Some (r, recorded m s rc r None w w', w')"
proof -
  let ?ctx = "\<lparr> ctx_current_state = s, ctx_retry_count = rc, start_time = now w \<rparr>"
  have before: "\<not> has_timed_out ?ctx (timeout md) w"
    using assms(3) by (auto simp: has_timed_out_def elapsed_time_def split: option.splits)
  have after: "\<not> has_timed_out ?ctx (timeout md) w'"
    using assms(3) by (auto simp: has_timed_out_def elapsed_time_def split: option.splits)
  have "handler_loop h ?ctx (timeout md) FAILURE (handler_calls m) w
          = Some (Returned r, handler_calls m @ [(s, rc)], w')"
    using before assms(1,2) by (simp add: handler_loop_returned)
  with after show ?thesis
    by (simp add: attempt_def try_block_def recorded_def Let_def)
qed

lemma attempt_raised:
  assumes "h \<lparr> ctx_current_state = s, ctx_retry_count = rc, start_time = now w \<rparr> w
             = (Raised e, w')"
    and "\<And>t. timeout md = Some t \<Longrightarrow> 0 < t"
  shows "attempt h s md rc m w
           = Some (FAILURE, recorded m s rc FAILURE (Some (ErrorText e)) w w', w')"
proof -
  let ?ctx = "\<lparr> ctx_current_state = s, ctx_retry_count = rc, start_time = now w \<rparr>"
  have before: "\<not> has_timed_out ?ctx (timeout md) w"
    using assms(2) by (auto simp: has_timed_out_def elapsed_time_def split: option.splits)
  have "handler_loop h ?ctx (timeout md) FAILURE (handler_calls m) w
          = Some (Raised e, handler_calls m @ [(s, rc)], w')"
    using before assms(1) by (simp add: handler_loop_raised)
  then show ?thesis
    by (simp add: attempt_def try_block_def recorded_def Let_def)
qed

lemma execute_state_no_metadata:
  "state_metadata m s = None \<Longrightarrow> execute_state cfg s m w = Some (Inl (KeyError (Some s)), m, w)"
  by (subst execute_state.simps) simp

lemma execute_state_no_handler:
  "state_metadata m s = Some md \<Longrightarrow> get_state_handler cfg s = Inl e \<Longrightarrow>
     execute_state cfg s m w = Some (Inl e, m, w)"
  by (subst execute_state.simps) simp

lemma execute_state_success:
  assumes "state_metadata m s = Some md" and "get_state_handler cfg s = Inr h"
    and "attempt h s md (retry_count_of m s) m w = Some (SUCCESS, m1, w1)"
  shows "execute_state cfg s m w
           = Some (Inr SUCCESS, m1\<lparr> retry_counts := (retry_counts m1)(s \<mapsto> 0) \<rparr>, w1)"
  using assms by (subst execute_state.simps) (simp add: retry_count_of_def)

lemma execute_state_skip:
  assumes "state_metadata m s = Some md" and "get_state_handler cfg s = Inr h"
    and "attempt h s md (retry_count_of m s) m w = Some (SKIP, m1, w1)"
  shows "execute_state cfg s m w = Some (Inr SKIP, m1, w1)"
  using assms by (subst execute_state.simps) (simp add: retry_count_of_def)

lemma execute_state_retry:
  assumes "state_metadata m s = Some md" and "get_state_handler cfg s = Inr h"
    and "attempt h s md (retry_count_of m s) m w = Some (res, m1, w1)"
    and "res = FAILURE \<or> res = RETRY \<or> res = TIMEOUT"
    and "retry_count_of m s < max_retries md"
  shows "execute_state cfg s m w
           = execute_state cfg s
               (m1\<lparr> retry_counts := (retry_counts m1)(s \<mapsto> retry_count_of m s + 1) \<rparr>) w1"
  using assms by (subst execute_state.simps) (auto simp: retry_count_of_def)

lemma execute_state_exhausted:
  assumes "state_metadata m s = Some md" and "get_state_handler cfg s = Inr h"
    and "attempt h s md (retry_count_of m s) m w = Some (res, m1, w1)"
    and "res = FAILURE \<or> res = RETRY \<or> res = TIMEOUT"
    and "\<not> retry_count_of m s < max_retries md"
  shows "execute_state cfg s m w
           = Some (Inr res,
                   (case failover_state md of
                      Some f \<Rightarrow> m1\<lparr> current_state := Some f,
                                    retry_counts := (retry_counts m1)(s \<mapsto> 0) \<rparr>
                    | None \<Rightarrow> m1), w1)"
  using assms
  by (subst execute_state.simps) (auto simp: retry_count_of_def split: option.splits)

lemma initialize_declared:
  assumes "fst (initialize cfg m) = Inr ()" and "\<not> initialized m"
    and "s \<in> set (define_states cfg)"
  shows "state_metadata (snd (initialize cfg m)) s \<noteq> None"
proof -
  from assms(1,2) have
    "validate_metadata (define_states cfg) (define_state_metadata cfg) = None"
    by (auto simp: initialize_def validate_def Let_def split: option.splits if_splits)
  with assms(3) have "define_state_metadata cfg s \<noteq> None"
    by (simp add: validate_metadata_None)
  with assms(1,2) show ?thesis
    by (auto simp: initialize_def validate_def Let_def split: option.splits if_splits)
qed

section \<open>Missing handler\<close>

text \<open>
  C6: when no handler is bound for a state, executing it raises the \<open>AttributeError\<close> of
  the lookup and leaves the engine and the world exactly as they were: no handler call,
  no history entry, no retry count. The error is not turned into a result: it leaves the
  run loop as well. Every state declared in the enumeration has metadata once
  \<open>initialize\<close> has succeeded, so the lookup of the handler is reached.
\<close>

theorem missing_handler_is_fatal:
  assumes "attributes cfg (handler_name cfg s) = None"
  shows "(state_metadata m s = Some md \<longrightarrow>
            execute_state cfg s m w = Some (Inl (AttributeError (handler_name cfg s)), m, w)) \<and>
         (fst (initialize cfg m') = Inr () \<and> \<not> initialized m' \<and> s \<in> set (define_states cfg)
            \<longrightarrow> (\<exists>md'. state_metadata (snd (initialize cfg m')) s = Some md')) \<and>
         (state_metadata m s = Some md \<and> check_watchdog m0 w = (Inr (), m) \<and>
          current_state m = Some s \<and> steps < MAX_STATES_PER_RUN \<longrightarrow>
            run_loop cfg steps m0 w
              = Some (Inl (AttributeError (handler_name cfg s)), m, w))"
proof -
  from assms have h: "get_state_handler cfg s = Inl (AttributeError (handler_name cfg s))"
    by (simp add: get_state_handler_def Let_def)
  have ex: "execute_state cfg s m w = Some (Inl (AttributeError (handler_name cfg s)), m, w)"
    if "state_metadata m s = Some md"
    using execute_state_no_handler [OF that h] .
  have loop: "run_loop cfg steps m0 w
                = Some (Inl (AttributeError (handler_name cfg s)), m, w)"
    if md: "state_metadata m s = Some md" and wd: "check_watchdog m0 w = (Inr (), m)"
      and cur: "current_state m = Some s" and cap: "steps < MAX_STATES_PER_RUN"
  proof -
    from wd cur ex [OF md] have
      "loop_body cfg m0 w = Some (Raises (AttributeError (handler_name cfg s)) m w)"
      by (simp add: loop_body_def)
    with cap show ?thesis by (simp add: run_loop.simps)
  qed
  from ex loop initialize_declared [of cfg m' s] show ?thesis
    by auto
qed

theorem missing_handler_is_fatal_witness:
  "attributes no_handler_a (handler_name no_handler_a A) = None \<and>
   state_metadata (configured all_meta []) A = Some (meta ''A'') \<and>
   fst (initialize no_handler_a fresh) = Inr () \<and> \<not> initialized fresh \<and>
   A \<in> set (define_states no_handler_a) \<and>
   check_watchdog (configured all_meta []) world0 = (Inr (), configured all_meta []) \<and>
   current_state (configured all_meta []) = Some A \<and> (0::nat) < MAX_STATES_PER_RUN \<and>
   execute_state no_handler_a A (configured all_meta []) world0
     = Some (Inl (AttributeError ''_handle_a''), configured all_meta [], world0) \<and>
   run_loop no_handler_a 0 (configured all_meta []) world0
     = Some (Inl (AttributeError ''_handle_a''), configured all_meta [], world0) \<and>
   state_history (configured all_meta []) = [] \<and>
   handler_calls (configured all_meta []) = []"
proof -
  have none: "attributes no_handler_a (handler_name no_handler_a A) = None"
    by (simp add: no_handler_a_def) (simp add: simple_machine_def)
  have md: "state_metadata (configured all_meta []) A = Some (meta ''A'')"
    by (simp add: configured_def all_meta_def)
  have init: "fst (initialize no_handler_a fresh) = Inr ()"
    unfolding no_handler_a_def by (subst initialize_simple) (simp_all add: all_meta_def)
  have nf: "\<not> initialized fresh"
    by (simp add: fresh_def init_machine_def)
  have decl: "A \<in> set (define_states no_handler_a)"
    by (simp add: no_handler_a_def simple_machine_def)
  have cur: "current_state (configured all_meta []) = Some A"
    by (simp add: configured_def)
  have cap: "(0::nat) < MAX_STATES_PER_RUN"
    by (simp add: MAX_STATES_PER_RUN_def)
  have nm: "handler_name no_handler_a A = ''_handle_a''"
    by (simp add: no_handler_a_def)
  note inst = missing_handler_is_fatal
      [OF none, where m = "configured all_meta []" and md = "meta ''A''" and w = world0
         and m' = fresh and ?m0.0 = "configured all_meta []" and steps = 0]
  from inst md have ex: "execute_state no_handler_a A (configured all_meta []) world0
     = Some (Inl (AttributeError ''_handle_a''), configured all_meta [], world0)"
    by (simp add: nm)
  from inst md check_watchdog_configured [of all_meta "[]" world0] cur cap
  have loop: "run_loop no_handler_a 0 (configured all_meta []) world0
     = Some (Inl (AttributeError ''_handle_a''), configured all_meta [], world0)"
    by (simp add: nm)
  have hist: "state_history (configured all_meta []) = []"
    "handler_calls (configured all_meta []) = []"
    by (simp_all add: configured_def fresh_def init_machine_def)
  from none md init nf decl check_watchdog_configured [of all_meta "[]" world0] cur cap ex
    loop hist
  show ?thesis by simp
qed

section \<open>Runs of the examples\<close>

lemma attempt_returning:
  "r \<noteq> RETRY \<Longrightarrow>
     attempt (returning r) s (meta nm) rc m w = Some (r, recorded m s rc r None w w, w)"
  by (rule attempt_returned) (simp_all add: returning_def meta_def)

lemma get_state_handler_simple:
  "hs (handler_name (simple_machine mds ts hs) s) = Some h \<Longrightarrow>
     get_state_handler (simple_machine mds ts hs) s = Inr h"
  by (simp add: get_state_handler_def Let_def) (simp add: simple_machine_def)

lemma execute_C_branching:
  "execute_state branching_cfg C (at_state C (configured all_meta branching)) world0
     = Some (Inr SUCCESS,
             (recorded (at_state C (configured all_meta branching)) C 0 SUCCESS None
                world0 world0)\<lparr> retry_counts := [C \<mapsto> 0] \<rparr>, world0)"
proof -
  let ?m = "at_state C (configured all_meta branching)"
  have md: "state_metadata ?m C = Some (meta ''C'')"
    by (simp add: at_state_def configured_def all_meta_def)
  have h: "get_state_handler branching_cfg C = Inr (returning SUCCESS)"
    unfolding branching_cfg_def
    by (rule get_state_handler_simple) (simp add: all_succeed_def)
  have rc: "retry_count_of ?m C = 0"
    by (simp add: retry_count_of_def at_state_def configured_def fresh_def init_machine_def)
  have att: "attempt (returning SUCCESS) C (meta ''C'') (retry_count_of ?m C) ?m world0
               = Some (SUCCESS, recorded ?m C 0 SUCCESS None world0 world0, world0)"
    unfolding rc by (rule attempt_returning) simp
  have "retry_counts (recorded ?m C 0 SUCCESS None world0 world0) = Map.empty"
    by (simp add: recorded_def at_state_def configured_def fresh_def init_machine_def)
  with execute_state_success [OF md h att] show ?thesis
    by simp
qed

theorem next_state_first_passing_witness:
  "transition_map (configured all_meta branching) = build_transition_map branching Map.empty \<and>
   get_next_state (configured all_meta branching) A SUCCESS world0 = Some ERROR \<and>
   \<not> can_transition (guarded A B (\<lambda>w. GuardRaises)) world0 \<and>
   get_next_state (configured all_meta branching) C SUCCESS world0 = None \<and>
   (0::nat) < MAX_STATES_PER_RUN \<and>
   run_loop branching_cfg 0 (at_state C (configured all_meta branching)) world0
     = Some (Inr (),
             (recorded (at_state C (configured all_meta branching)) C 0 SUCCESS None
                world0 world0)\<lparr> retry_counts := [C \<mapsto> 0] \<rparr>, world0)"
proof -
  let ?m = "configured all_meta branching"
  let ?mC = "at_state C ?m"
  let ?m1 = "(recorded ?mC C 0 SUCCESS None world0 world0)\<lparr> retry_counts := [C \<mapsto> 0] \<rparr>"
  have tm: "transition_map ?m = build_transition_map branching Map.empty"
    by (simp add: configured_def)
  have tmC: "transition_map ?mC = build_transition_map branching Map.empty"
    by (simp add: configured_def at_state_def)
  have tm1: "transition_map ?m1 = build_transition_map branching Map.empty"
    by (simp add: configured_def at_state_def recorded_def)
  have cap: "(0::nat) < MAX_STATES_PER_RUN"
    by (simp add: MAX_STATES_PER_RUN_def)
  have noC: "\<forall>t \<in> set branching. from_state t = C \<longrightarrow> \<not> guard_absent_or_true t world0"
    by (simp add: branching_def guarded_def transition_def)
  have g: "condition (guarded A B (\<lambda>w. GuardRaises)) = Some (\<lambda>w. GuardRaises) \<and>
           (\<lambda>w. GuardRaises) world0 = GuardRaises"
    by (simp add: guarded_def)
  have wd: "check_watchdog ?mC world0 = (Inr (), ?mC)"
    by (simp add: check_watchdog_def at_state_def configured_def fresh_def init_machine_def)
  have cur: "current_state ?mC = Some C" "current_state ?m1 = Some C"
    by (simp_all add: at_state_def recorded_def)
  note first = next_state_first_passing
      [OF tm, where s = A and res = SUCCESS and w = world0
         and t = "guarded A B (\<lambda>w. GuardRaises)" and c = "\<lambda>w. GuardRaises"]
  from first have a: "get_next_state ?m A SUCCESS world0 = Some ERROR"
    by (simp add: branching_def guarded_def transition_def guard_absent_or_true_def)
  from first g have b: "\<not> can_transition (guarded A B (\<lambda>w. GuardRaises)) world0"
    by blast
  from next_state_first_passing [OF tm, where s = C and res = SUCCESS and w = world0] noC
  have c: "get_next_state ?m C SUCCESS world0 = None"
    by blast
  from next_state_first_passing [OF tm1, where s = C and res = SUCCESS and w = world0] noC
  have c1: "get_next_state ?m1 C SUCCESS world0 = None"
    by blast
  from next_state_first_passing
      [OF tmC, where s = C and w = world0 and ?m0.0 = ?mC and cfg = branching_cfg
         and res' = SUCCESS and ?m1.0 = ?m1 and ?w1.0 = world0 and steps = 0]
    wd cur execute_C_branching c1 cap
  have d: "run_loop branching_cfg 0 ?mC world0 = Some (Inr (), ?m1, world0)"
    by blast
  from tm a b c cap d show ?thesis
    by blast
qed

section \<open>Retries\<close>

lemma post_init_valid:
  assumes "post_init md = Inr md"
  shows "0 \<le> max_retries md" and "\<And>t. timeout md = Some t \<Longrightarrow> 0 < t"
  using assms by (auto simp: post_init_def split: if_splits option.splits)

lemma attempt_fails:
  assumes "fails_at h md s rc" and "post_init md = Inr md"
  shows "\<exists>msg w'. attempt h s md rc m w
                     = Some (FAILURE, recorded m s rc FAILURE msg w w', w')"
proof -
  let ?ctx = "\<lparr> ctx_current_state = s, ctx_retry_count = rc, start_time = now w \<rparr>"
  obtain out w' where hw: "h ?ctx w = (out, w')"
    by (cases "h ?ctx w") blast
  show ?thesis
  proof (cases out)
    case (Returned r)
    with assms(1) hw have r: "r = FAILURE" and t: "in_time md w w'"
      by (auto simp: fails_at_def dest: spec [of _ w])
    have "attempt h s md rc m w = Some (r, recorded m s rc r None w w', w')"
    proof (rule attempt_returned)
      show "h ?ctx w = (Returned r, w')" using hw Returned by simp
      show "r \<noteq> RETRY" using r by simp
      show "0 < t \<and> now w' - now w < t" if "timeout md = Some t" for t
        using that t post_init_valid(2) [OF assms(2) that] by (simp add: in_time_def)
    qed
    with r show ?thesis by blast
  next
    case (Raised e)
    have "attempt h s md rc m w
            = Some (FAILURE, recorded m s rc FAILURE (Some (ErrorText e)) w w', w')"
    proof (rule attempt_raised)
      show "h ?ctx w = (Raised e, w')" using hw Raised by simp
      show "0 < t" if "timeout md = Some t" for t
        using post_init_valid(2) [OF assms(2) that] .
    qed
    then show ?thesis by blast
  qed
qed

lemma attempt_succeeds:
  assumes "succeeds_at h md s rc" and "post_init md = Inr md"
  shows "\<exists>w'. attempt h s md rc m w = Some (SUCCESS, recorded m s rc SUCCESS None w w', w')"
proof -
  let ?ctx = "\<lparr> ctx_current_state = s, ctx_retry_count = rc, start_time = now w \<rparr>"
  obtain out w' where hw: "h ?ctx w = (out, w')"
    by (cases "h ?ctx w") blast
  from assms(1) hw obtain r where out: "out = Returned r" and r: "r = SUCCESS"
    and t: "in_time md w w'"
    by (cases out) (auto simp: succeeds_at_def dest: spec [of _ w])
  have "attempt h s md rc m w = Some (r, recorded m s rc r None w w', w')"
  proof (rule attempt_returned)
    show "h ?ctx w = (Returned r, w')" using hw out by simp
    show "r \<noteq> RETRY" using r by simp
    show "0 < t \<and> now w' - now w < t" if "timeout md = Some t" for t
      using that t post_init_valid(2) [OF assms(2) that] by (simp add: in_time_def)
  qed
  with r show ?thesis by blast
qed

lemma failed_attempts_then:
  assumes "state_metadata m s = Some md" and "post_init md = Inr md"
    and "get_state_handler cfg s = Inr h"
    and "retry_count_of m s = r" and "r \<le> n" and "n \<le> max_retries md"
    and "\<And>i. r \<le> i \<Longrightarrow> i < n \<Longrightarrow> fails_at h md s i"
  shows "\<exists>m1 w1. execute_state cfg s m w = execute_state cfg s m1 w1 \<and>
                 failed_attempts m s r n m1"
  using assms
proof (induction "nat (n - r)" arbitrary: r m w)
  case 0
  then have "r = n" by simp
  have "failed_attempts m s r n m"
    unfolding failed_attempts_def \<open>r = n\<close>
    by (rule exI [of _ "[]"]) simp
  then show ?case by blast
next
  case (Suc k)
  from Suc.hyps(2) have lt: "r < n" by linarith
  from Suc.prems(7) [of r] lt have "fails_at h md s r" by simp
  from attempt_fails [OF this Suc.prems(2)] obtain msg w' where
    att: "attempt h s md r m w = Some (FAILURE, recorded m s r FAILURE msg w w', w')"
    by blast
  let ?ma = "recorded m s r FAILURE msg w w'"
  let ?mb = "?ma\<lparr> retry_counts := (retry_counts ?ma)(s \<mapsto> r + 1) \<rparr>"
  have step: "execute_state cfg s m w = execute_state cfg s ?mb w'"
    using execute_state_retry
        [OF Suc.prems(1) Suc.prems(3), where res = FAILURE and ?m1.0 = ?ma and ?w1.0 = w'
           and w = w]
      att Suc.prems(4,6) lt by simp
  have k: "k = nat (n - (r + 1))" using Suc.hyps(2) by linarith
  have mdb: "state_metadata ?mb s = Some md"
    using Suc.prems(1) by (simp add: recorded_def)
  have rcb: "retry_count_of ?mb s = r + 1"
    by (simp add: retry_count_of_def)
  have "\<exists>m1 w1. execute_state cfg s ?mb w' = execute_state cfg s m1 w1 \<and>
                 failed_attempts ?mb s (r + 1) n m1"
  proof (rule Suc.hyps(1) [OF k mdb Suc.prems(2) Suc.prems(3) rcb])
    show "r + 1 \<le> n" using lt by simp
    show "n \<le> max_retries md" by (rule Suc.prems(6))
    show "fails_at h md s i" if "r + 1 \<le> i" and "i < n" for i
      using Suc.prems(7) [of i] that by simp
  qed
  then obtain m1 w1 es where
    ex: "execute_state cfg s ?mb w' = execute_state cfg s m1 w1"
    and m1: "m1 = ?mb\<lparr> handler_calls := handler_calls ?mb @ map (Pair s) [r + 1..n - 1],
                    state_history := foldl deque_append (state_history ?mb) es,
                    retry_counts := (if r + 1 < n then (retry_counts ?mb)(s \<mapsto> n)
                                     else retry_counts ?mb) \<rparr>"
    and res: "map entry_result es = replicate (nat (n - (r + 1))) FAILURE"
    and idx: "map entry_retry_count es = [r + 1..n - 1]"
    and sts: "\<forall>e \<in> set es. entry_state e = s"
    unfolding failed_attempts_def by blast
  let ?e = "\<lparr> entry_state = s, entry_result = FAILURE, duration = now w' - now w,
              timestamp = now w', entry_retry_count = r, error_message = msg \<rparr>"
  have up: "[r..n - 1] = r # [r + 1..n - 1]"
    using lt by (simp add: upto_rec1)
  have rep: "replicate (nat (n - r)) FAILURE = FAILURE # replicate (nat (n - (r + 1))) FAILURE"
    using lt by (metis Suc.hyps(2) k replicate_Suc)
  have "failed_attempts m s r n m1"
    unfolding failed_attempts_def
  proof (intro exI [of _ "?e # es"] conjI)
    show "m1 = m\<lparr> handler_calls := handler_calls m @ map (Pair s) [r..n - 1],
                    state_history := foldl deque_append (state_history m) (?e # es),
                    retry_counts := (if r < n then (retry_counts m)(s \<mapsto> n)
                                     else retry_counts m) \<rparr>"
    proof (cases "r + 1 < n")
      case True
      with lt show ?thesis unfolding m1 up by (simp add: recorded_def)
    next
      case False
      with lt have "n = r + 1" by linarith
      with lt show ?thesis unfolding m1 up by (simp add: recorded_def)
    qed
    show "map entry_result (?e # es) = replicate (nat (n - r)) FAILURE"
      unfolding rep using res by simp
    show "map entry_retry_count (?e # es) = [r..n - 1]"
      unfolding up using idx by simp
    show "\<forall>e \<in> set (?e # es). entry_state e = s"
      using sts by simp
  qed
  with step ex show ?case by auto
qed

lemma failed_attempts_fields:
  assumes "failed_attempts m s r n m1" and "r \<le> n"
  shows "state_metadata m1 = state_metadata m" and "current_state m1 = current_state m"
    and "retry_count_of m1 s = (if r < n then n else retry_count_of m s)"
    and "retry_counts m1 = (if r < n then (retry_counts m)(s \<mapsto> n) else retry_counts m)"
    and "transition_map m1 = transition_map m"
  using assms by (auto simp: failed_attempts_def retry_count_of_def)

lemma foldl_deque_append_snoc:
  "deque_append (foldl deque_append xs es) e = foldl deque_append xs (es @ [e])"
  by simp

lemma foldl_deque_append_short:
  "length xs + length es \<le> 100 \<Longrightarrow> foldl deque_append xs es = xs @ es"
  by (induction es arbitrary: xs) (simp_all add: deque_append_def)

text \<open>
  C2: a state with \<open>max_retries = n\<close>, retry count 0, valid metadata and a handler that
  fails at the retry indices \<open>0\<close> to \<open>n - 1\<close> and succeeds at index \<open>n\<close>: executing it
  returns \<open>SUCCESS\<close> after exactly \<open>n + 1\<close> handler calls, with indices \<open>0\<close> to \<open>n\<close>; it
  appends \<open>n + 1\<close> history entries, \<open>n\<close> times \<open>FAILURE\<close> and then \<open>SUCCESS\<close>, with the same
  indices; and it leaves the state's retry count at 0.
\<close>

theorem retry_then_succeed:
  assumes "state_metadata m s = Some md" and "post_init md = Inr md"
    and "get_state_handler cfg s = Inr h"
    and "retry_count_of m s = 0"
    and "max_retries md = int n"
    and "\<forall>i. 0 \<le> i \<and> i < int n \<longrightarrow> fails_at h md s i"
    and "succeeds_at h md s (int n)"
  shows "\<exists>m' w' es.
           execute_state cfg s m w = Some (Inr SUCCESS, m', w') \<and>
           handler_calls m' = handler_calls m @ map (Pair s) [0..int n] \<and>
           length (map (Pair s) [0..int n]) = n + 1 \<and>
           state_history m' = foldl deque_append (state_history m) es \<and>
           length es = n + 1 \<and>
           map entry_result es = replicate n FAILURE @ [SUCCESS] \<and>
           map entry_retry_count es = [0..int n] \<and>
           (\<forall>e \<in> set es. entry_state e = s) \<and>
           retry_counts m' = (retry_counts m)(s \<mapsto> 0) \<and>
           current_state m' = current_state m"
proof -
  have "\<exists>m1 w1. execute_state cfg s m w = execute_state cfg s m1 w1 \<and>
                 failed_attempts m s 0 (int n) m1"
  proof (rule failed_attempts_then [OF assms(1,2,3,4)])
    show "0 \<le> int n" by simp
    show "int n \<le> max_retries md" using assms(5) by simp
    show "fails_at h md s i" if "0 \<le> i" and "i < int n" for i
      using assms(6) that by blast
  qed
  then obtain m1 w1 where ex1: "execute_state cfg s m w = execute_state cfg s m1 w1"
    and fa: "failed_attempts m s 0 (int n) m1"
    by blast
  note f = failed_attempts_fields [OF fa, simplified]
  from fa obtain es where
    m1: "m1 = m\<lparr> handler_calls := handler_calls m @ map (Pair s) [0..int n - 1],
                    state_history := foldl deque_append (state_history m) es,
                    retry_counts := (if 0 < int n then (retry_counts m)(s \<mapsto> int n)
                                     else retry_counts m) \<rparr>"
    and res: "map entry_result es = replicate (nat (int n - 0)) FAILURE"
    and idx: "map entry_retry_count es = [0..int n - 1]"
    and sts: "\<forall>e \<in> set es. entry_state e = s"
    unfolding failed_attempts_def by blast
  have md1: "state_metadata m1 s = Some md"
    using f(1) assms(1) by simp
  have rc1: "retry_count_of m1 s = int n"
    using f(3) assms(4) by auto
  from attempt_succeeds [OF assms(7,2), of m1 w1] obtain w' where
    att: "attempt h s md (int n) m1 w1
            = Some (SUCCESS, recorded m1 s (int n) SUCCESS None w1 w', w')"
    by blast
  let ?mr = "recorded m1 s (int n) SUCCESS None w1 w'"
  let ?m' = "?mr\<lparr> retry_counts := (retry_counts ?mr)(s \<mapsto> 0) \<rparr>"
  let ?e = "\<lparr> entry_state = s, entry_result = SUCCESS, duration = now w' - now w1,
              timestamp = now w', entry_retry_count = int n, error_message = None \<rparr>"
  have ex2: "execute_state cfg s m1 w1 = Some (Inr SUCCESS, ?m', w')"
    using execute_state_success [OF md1 assms(3), where ?m1.0 = ?mr and ?w1.0 = w' and w = w1]
      att rc1 by simp
  have up: "[0..int n] = [0..int n - 1] @ [int n]"
    by (simp add: upto_rec2)
  have len: "length es = n"
    using arg_cong [OF res, of length] by simp
  have "execute_state cfg s m w = Some (Inr SUCCESS, ?m', w')"
    using ex1 ex2 by simp
  moreover have "handler_calls ?m' = handler_calls m @ map (Pair s) [0..int n]"
    unfolding up by (simp add: recorded_def m1)
  moreover have "length (map (Pair s) [0..int n]) = n + 1"
    by simp
  moreover have "state_history ?m' = foldl deque_append (state_history m) (es @ [?e])"
    by (simp add: recorded_def m1)
  moreover have "length (es @ [?e]) = n + 1"
    using len by simp
  moreover have "map entry_result (es @ [?e]) = replicate n FAILURE @ [SUCCESS]"
    using res by simp
  moreover have "map entry_retry_count (es @ [?e]) = [0..int n]"
    unfolding up using idx by simp
  moreover have "\<forall>e \<in> set (es @ [?e]). entry_state e = s"
    using sts by simp
  moreover have "retry_counts ?m' = (retry_counts m)(s \<mapsto> 0)"
    by (auto simp: recorded_def m1)
  moreover have "current_state ?m' = current_state m"
    by (simp add: recorded_def m1)
  ultimately show ?thesis
    by blast
qed


lemma upto_0_2: "[0..2::int] = [0, 1, 2]"
  by (simp add: upto_rec1)

theorem retry_then_succeed_witness:
  "state_metadata (configured (with_meta A retried_meta) []) A = Some retried_meta \<and>
   post_init retried_meta = Inr retried_meta \<and>
   get_state_handler retried_cfg A = Inr (succeed_from 2) \<and>
   retry_count_of (configured (with_meta A retried_meta) []) A = 0 \<and>
   max_retries retried_meta = int 2 \<and>
   fails_at (succeed_from 2) retried_meta A 0 \<and>
   fails_at (succeed_from 2) retried_meta A 1 \<and>
   succeeds_at (succeed_from 2) retried_meta A 2 \<and>
   map_option fst (execute_state retried_cfg A (configured (with_meta A retried_meta) []) world0)
     = Some (Inr SUCCESS) \<and>
   map_option (handler_calls \<circ> fst \<circ> snd)
       (execute_state retried_cfg A (configured (with_meta A retried_meta) []) world0)
     = Some [(A, 0), (A, 1), (A, 2)] \<and>
   map_option (map entry_result \<circ> state_history \<circ> fst \<circ> snd)
       (execute_state retried_cfg A (configured (with_meta A retried_meta) []) world0)
     = Some [FAILURE, FAILURE, SUCCESS] \<and>
   map_option (map entry_retry_count \<circ> state_history \<circ> fst \<circ> snd)
       (execute_state retried_cfg A (configured (with_meta A retried_meta) []) world0)
     = Some [0, 1, 2] \<and>
   map_option ((\<lambda>m. retry_counts m A) \<circ> fst \<circ> snd)
       (execute_state retried_cfg A (configured (with_meta A retried_meta) []) world0)
     = Some (Some 0)"
proof -
  let ?m = "configured (with_meta A retried_meta) []"
  have md: "state_metadata ?m A = Some retried_meta"
    by (simp add: configured_def with_meta_def)
  have valid: "post_init retried_meta = Inr retried_meta"
    by (simp add: post_init_def retried_meta_def meta_def)
  have h: "get_state_handler retried_cfg A = Inr (succeed_from 2)"
    unfolding retried_cfg_def
    by (rule get_state_handler_simple) (simp add: with_handler_def)
  have rc: "retry_count_of ?m A = 0"
    by (simp add: retry_count_of_def configured_def fresh_def init_machine_def)
  have n: "max_retries retried_meta = int 2"
    by (simp add: retried_meta_def)
  have fails: "fails_at (succeed_from 2) retried_meta A i" if "i < 2" for i
    using that
    by (simp add: fails_at_def succeed_from_def in_time_def retried_meta_def meta_def)
  have succ: "succeeds_at (succeed_from 2) retried_meta A 2"
    by (simp add: succeeds_at_def succeed_from_def in_time_def retried_meta_def meta_def)
  have all: "\<forall>i. 0 \<le> i \<and> i < int 2 \<longrightarrow> fails_at (succeed_from 2) retried_meta A i"
    using fails by simp
  have succ': "succeeds_at (succeed_from 2) retried_meta A (int 2)"
    using succ by simp
  from retry_then_succeed [OF md valid h rc n all succ', of world0]
  obtain m' w' es where
    ex: "execute_state retried_cfg A ?m world0 = Some (Inr SUCCESS, m', w')"
    and calls: "handler_calls m' = handler_calls ?m @ map (Pair A) [0..int 2]"
    and hist: "state_history m' = foldl deque_append (state_history ?m) es"
    and len: "length es = 2 + 1"
    and res: "map entry_result es = replicate 2 FAILURE @ [SUCCESS]"
    and idx: "map entry_retry_count es = [0..int 2]"
    and cnt: "retry_counts m' = (retry_counts ?m)(A \<mapsto> 0)"
    by blast
  have h0: "state_history ?m = []" "handler_calls ?m = []"
    by (simp_all add: configured_def fresh_def init_machine_def)
  have "foldl deque_append (state_history ?m) es = es"
    using foldl_deque_append_short [of "[]" es] len h0 by simp
  with hist have hist': "state_history m' = es" by simp
  have r2: "replicate 2 FAILURE @ [SUCCESS] = [FAILURE, FAILURE, SUCCESS]"
    by (simp add: numeral_2_eq_2)
  from ex calls hist' res idx cnt h0 r2 upto_0_2
  have concl:
    "map_option fst (execute_state retried_cfg A ?m world0) = Some (Inr SUCCESS)"
    "map_option (handler_calls \<circ> fst \<circ> snd) (execute_state retried_cfg A ?m world0)
       = Some [(A, 0), (A, 1), (A, 2)]"
    "map_option (map entry_result \<circ> state_history \<circ> fst \<circ> snd)
       (execute_state retried_cfg A ?m world0) = Some [FAILURE, FAILURE, SUCCESS]"
    "map_option (map entry_retry_count \<circ> state_history \<circ> fst \<circ> snd)
       (execute_state retried_cfg A ?m world0) = Some [0, 1, 2]"
    "map_option ((\<lambda>m. retry_counts m A) \<circ> fst \<circ> snd)
       (execute_state retried_cfg A ?m world0) = Some (Some 0)"
    by simp_all
  from md valid h rc n fails [of 0] fails [of 1] succ concl show ?thesis
    by simp
qed

section \<open>Failover\<close>

lemma attempt_keeps:
  assumes "attempt h s md rc m w = Some (res, m1, w1)"
  shows "state_metadata m1 = state_metadata m" and "retry_counts m1 = retry_counts m"
    and "current_state m1 = current_state m"
  using assms by (auto simp: attempt_def Let_def split: option.splits prod.splits)

lemma execute_state_attempted:
  assumes "execute_state cfg s m w = Some (Inr res, m', w')"
    and "state_metadata m s = Some md"
  obtains h r1 m1 w1 where "get_state_handler cfg s = Inr h"
    and "attempt h s md (retry_count_of m s) m w = Some (r1, m1, w1)"
proof -
  from assms obtain h where h: "get_state_handler cfg s = Inr h"
    by (cases "get_state_handler cfg s") (simp_all add: execute_state_no_handler)
  have "attempt h s md (retry_count_of m s) m w \<noteq> None"
    using assms h
    by (subst (asm) execute_state.simps) (auto simp: Let_def split: option.splits)
  then obtain r1 m1 w1 where "attempt h s md (retry_count_of m s) m w = Some (r1, m1, w1)"
    by (cases "attempt h s md (retry_count_of m s) m w") auto
  with h that show thesis by blast
qed

lemma execute_state_current:
  assumes "execute_state cfg s m w = Some (Inr res, m', w')"
    and "state_metadata m s = Some md"
  shows "current_state m' = current_state m \<or> current_state m' = failover_state md"
  using assms
proof (induction "nat (max_retries md - retry_count_of m s)" arbitrary: m w rule: less_induct)
  case less
  note ex = less.prems(1) and md = less.prems(2)
  from execute_state_attempted [OF ex md] obtain h r1 m1 w1 where
    h: "get_state_handler cfg s = Inr h"
    and att: "attempt h s md (retry_count_of m s) m w = Some (r1, m1, w1)"
    by blast
  note keep = attempt_keeps [OF att]
  show ?case
  proof (cases "r1 = FAILURE \<or> r1 = RETRY \<or> r1 = TIMEOUT")
    case frt: True
    show ?thesis
    proof (cases "retry_count_of m s < max_retries md")
      case True
      let ?mb = "m1\<lparr> retry_counts := (retry_counts m1)(s \<mapsto> retry_count_of m s + 1) \<rparr>"
      from execute_state_retry [OF md h att frt True] ex
      have exb: "execute_state cfg s ?mb w1 = Some (Inr res, m', w')" by simp
      have mdb: "state_metadata ?mb s = Some md" using keep(1) md by simp
      have rcb: "retry_count_of ?mb s = retry_count_of m s + 1"
        by (simp add: retry_count_of_def)
      have "nat (max_retries md - retry_count_of ?mb s)
              < nat (max_retries md - retry_count_of m s)"
        unfolding rcb using True by linarith
      from less.hyps [OF this exb mdb] keep(3) show ?thesis by simp
    next
      case False
      from execute_state_exhausted [OF md h att frt False] ex keep(3) show ?thesis
        by (auto split: option.splits)
    qed
  next
    case False
    then have "r1 = SUCCESS \<or> r1 = SKIP" by (cases r1) simp_all
    then show ?thesis
    proof
      assume "r1 = SUCCESS"
      with execute_state_success [OF md h, where w = w and ?m1.0 = m1 and ?w1.0 = w1]
        att ex keep(3) show ?thesis by auto
    next
      assume "r1 = SKIP"
      with execute_state_skip [OF md h, where w = w and ?m1.0 = m1 and ?w1.0 = w1]
        att ex keep(3) show ?thesis by auto
    qed
  qed
qed

text \<open>
  C9: a state whose failover state is the state itself. Whatever \<open>execute_state\<close> does
  there, exhausting the retries included, the current state is the same before and after,
  so the pass of the run loop does not take the failover branch: it selects the next state
  from the state's own transitions in the same pass, and ends the run or moves on by what
  the selection returns.
\<close>

theorem self_failover_runs_selection:
  assumes "state_metadata m s = Some md" and "failover_state md = Some s"
    and "check_watchdog m0 w = (Inr (), m)" and "current_state m = Some s"
    and "execute_state cfg s m w = Some (Inr res, m', w')"
  shows "current_state m' = Some s \<and>
         loop_body cfg m0 w
           = Some (case get_next_state m' s res w' of
                     None \<Rightarrow> Break m' w'
                   | Some next_state \<Rightarrow> Continue (m'\<lparr> current_state := Some next_state \<rparr>) w')"
proof -
  from execute_state_current [OF assms(5,1)] assms(2,4) have cur: "current_state m' = Some s"
    by auto
  with assms(3,4,5) show ?thesis
    by (simp add: loop_body_def split: option.splits)
qed

lemma always_fails_exhausts:
  assumes "state_metadata m s = Some md" and "post_init md = Inr md"
    and "get_state_handler cfg s = Inr h"
    and "retry_count_of m s = 0"
    and "max_retries md = int n"
    and "\<forall>i. 0 \<le> i \<and> i \<le> int n \<longrightarrow> fails_at h md s i"
  shows "\<exists>m1 w1 msg w'.
           failed_attempts m s 0 (int n) m1 \<and>
           attempt h s md (int n) m1 w1
             = Some (FAILURE, recorded m1 s (int n) FAILURE msg w1 w', w') \<and>
           execute_state cfg s m w
             = Some (Inr FAILURE,
                     (case failover_state md of
                        Some f \<Rightarrow>
                          (recorded m1 s (int n) FAILURE msg w1 w')
                            \<lparr> current_state := Some f,
                              retry_counts :=
                                (retry_counts (recorded m1 s (int n) FAILURE msg w1 w'))
                                  (s \<mapsto> 0) \<rparr>
                      | None \<Rightarrow> recorded m1 s (int n) FAILURE msg w1 w'), w')"
proof -
  have "\<exists>m1 w1. execute_state cfg s m w = execute_state cfg s m1 w1 \<and>
                 failed_attempts m s 0 (int n) m1"
  proof (rule failed_attempts_then [OF assms(1,2,3,4)])
    show "0 \<le> int n" by simp
    show "int n \<le> max_retries md" using assms(5) by simp
    show "fails_at h md s i" if "0 \<le> i" and "i < int n" for i
      using assms(6) that by simp
  qed
  then obtain m1 w1 where ex1: "execute_state cfg s m w = execute_state cfg s m1 w1"
    and fa: "failed_attempts m s 0 (int n) m1"
    by blast
  note f = failed_attempts_fields [OF fa, simplified]
  have md1: "state_metadata m1 s = Some md"
    using f(1) assms(1) by simp
  have rc1: "retry_count_of m1 s = int n"
    using f(3) assms(4) by auto
  from assms(6) have "fails_at h md s (int n)" by simp
  from attempt_fails [OF this assms(2), of m1 w1] obtain msg w' where
    att: "attempt h s md (int n) m1 w1
            = Some (FAILURE, recorded m1 s (int n) FAILURE msg w1 w', w')"
    by blast
  have "\<not> retry_count_of m1 s < max_retries md"
    using rc1 assms(5) by simp
  from execute_state_exhausted
         [OF md1 assms(3), where res = FAILURE and w = w1 and ?w1.0 = w'
            and ?m1.0 = "recorded m1 s (int n) FAILURE msg w1 w'"] att rc1 this ex1
  have "execute_state cfg s m w
             = Some (Inr FAILURE,
                     (case failover_state md of
                        Some f \<Rightarrow>
                          (recorded m1 s (int n) FAILURE msg w1 w')
                            \<lparr> current_state := Some f,
                              retry_counts :=
                                (retry_counts (recorded m1 s (int n) FAILURE msg w1 w'))
                                  (s \<mapsto> 0) \<rparr>
                      | None \<Rightarrow> recorded m1 s (int n) FAILURE msg w1 w'), w')"
    by simp
  with fa att show ?thesis by blast
qed

text \<open>
  C1, as amended. When an attempt ends in \<open>FAILURE\<close>, \<open>RETRY\<close> or \<open>TIMEOUT\<close>, the retry
  count equals \<open>max_retries\<close> and a failover state is set, \<open>execute_state\<close> returns with
  the current state set to the failover state and the state's retry count reset to 0
  (the value returned is left out here). With a handler that fails at every retry index
  \<open>0\<close> to \<open>n\<close>, the handler is called exactly \<open>n + 1\<close> times, \<open>FAILURE\<close> is returned, the
  current state is the failover state and the retry count is 0; and when the failover
  state is another state than the one executed, the pass of the run loop ends there,
  without selecting among the state's transitions.
\<close>

theorem failover_after_exhaustion:
  "(state_metadata m s = Some md \<and> get_state_handler cfg s = Inr h \<and>
    attempt h s md (retry_count_of m s) m w = Some (res, m1, w1) \<and>
    (res = FAILURE \<or> res = RETRY \<or> res = TIMEOUT) \<and>
    retry_count_of m s = max_retries md \<and> failover_state md = Some f \<longrightarrow>
      map_option snd (execute_state cfg s m w)
        = Some (m1\<lparr> current_state := Some f,
                     retry_counts := (retry_counts m1)(s \<mapsto> 0) \<rparr>, w1)) \<and>
   (state_metadata m s = Some md \<and> post_init md = Inr md \<and>
    get_state_handler cfg s = Inr h \<and> retry_count_of m s = 0 \<and> max_retries md = int n \<and>
    (\<forall>i. 0 \<le> i \<and> i \<le> int n \<longrightarrow> fails_at h md s i) \<and> failover_state md = Some f \<longrightarrow>
      (\<exists>m' w'. execute_state cfg s m w = Some (Inr FAILURE, m', w') \<and>
               handler_calls m' = handler_calls m @ map (Pair s) [0..int n] \<and>
               length (map (Pair s) [0..int n]) = n + 1 \<and>
               current_state m' = Some f \<and>
               retry_counts m' = (retry_counts m)(s \<mapsto> 0) \<and>
               (f \<noteq> s \<and> check_watchdog m0 w = (Inr (), m) \<and> current_state m = Some s \<longrightarrow>
                  loop_body cfg m0 w = Some (Continue m' w'))))"
proof (intro conjI impI)
  assume a: "state_metadata m s = Some md \<and> get_state_handler cfg s = Inr h \<and>
    attempt h s md (retry_count_of m s) m w = Some (res, m1, w1) \<and>
    (res = FAILURE \<or> res = RETRY \<or> res = TIMEOUT) \<and>
    retry_count_of m s = max_retries md \<and> failover_state md = Some f"
  then have md: "state_metadata m s = Some md" and h: "get_state_handler cfg s = Inr h"
    and att: "attempt h s md (retry_count_of m s) m w = Some (res, m1, w1)"
    and frt: "res = FAILURE \<or> res = RETRY \<or> res = TIMEOUT"
    and eq: "retry_count_of m s = max_retries md"
    and fo: "failover_state md = Some f"
    by blast+
  from eq have rc: "\<not> retry_count_of m s < max_retries md"
    by simp
  from execute_state_exhausted [OF md h att frt rc] fo
  show "map_option snd (execute_state cfg s m w)
        = Some (m1\<lparr> current_state := Some f,
                     retry_counts := (retry_counts m1)(s \<mapsto> 0) \<rparr>, w1)"
    by simp
next
  assume b: "state_metadata m s = Some md \<and> post_init md = Inr md \<and>
    get_state_handler cfg s = Inr h \<and> retry_count_of m s = 0 \<and> max_retries md = int n \<and>
    (\<forall>i. 0 \<le> i \<and> i \<le> int n \<longrightarrow> fails_at h md s i) \<and> failover_state md = Some f"
  then have md: "state_metadata m s = Some md" and valid: "post_init md = Inr md"
    and h: "get_state_handler cfg s = Inr h" and rc: "retry_count_of m s = 0"
    and n: "max_retries md = int n"
    and fails: "\<forall>i. 0 \<le> i \<and> i \<le> int n \<longrightarrow> fails_at h md s i"
    and fo: "failover_state md = Some f"
    by blast+
  from always_fails_exhausts [OF md valid h rc n fails, of w] fo
  obtain m1 w1 msg w' where
    fa: "failed_attempts m s 0 (int n) m1"
    and ex: "execute_state cfg s m w
               = Some (Inr FAILURE,
                       (recorded m1 s (int n) FAILURE msg w1 w')
                         \<lparr> current_state := Some f,
                           retry_counts :=
                             (retry_counts (recorded m1 s (int n) FAILURE msg w1 w'))
                               (s \<mapsto> 0) \<rparr>, w')"
    by auto
  let ?mr = "recorded m1 s (int n) FAILURE msg w1 w'"
  let ?m' = "?mr\<lparr> current_state := Some f, retry_counts := (retry_counts ?mr)(s \<mapsto> 0) \<rparr>"
  note f = failed_attempts_fields [OF fa, simplified]
  from fa obtain es where
    m1: "m1 = m\<lparr> handler_calls := handler_calls m @ map (Pair s) [0..int n - 1],
                    state_history := foldl deque_append (state_history m) es,
                    retry_counts := (if 0 < int n then (retry_counts m)(s \<mapsto> int n)
                                     else retry_counts m) \<rparr>"
    unfolding failed_attempts_def by blast
  have up: "[0..int n] = [0..int n - 1] @ [int n]"
    by (simp add: upto_rec2)
  have calls: "handler_calls ?m' = handler_calls m @ map (Pair s) [0..int n]"
    unfolding up by (simp add: recorded_def m1)
  have len: "length (map (Pair s) [0..int n]) = n + 1"
    by simp
  have cur: "current_state ?m' = Some f"
    by simp
  have cnt: "retry_counts ?m' = (retry_counts m)(s \<mapsto> 0)"
    by (auto simp: recorded_def m1)
  have loop: "loop_body cfg m0 w = Some (Continue ?m' w')"
    if "f \<noteq> s \<and> check_watchdog m0 w = (Inr (), m) \<and> current_state m = Some s"
    using that ex by (simp add: loop_body_def)
  from ex calls len cur cnt loop
  show "\<exists>m' w'. execute_state cfg s m w = Some (Inr FAILURE, m', w') \<and>
               handler_calls m' = handler_calls m @ map (Pair s) [0..int n] \<and>
               length (map (Pair s) [0..int n]) = n + 1 \<and>
               current_state m' = Some f \<and>
               retry_counts m' = (retry_counts m)(s \<mapsto> 0) \<and>
               (f \<noteq> s \<and> check_watchdog m0 w = (Inr (), m) \<and> current_state m = Some s \<longrightarrow>
                  loop_body cfg m0 w = Some (Continue m' w'))"
    by blast
qed

section \<open>Failover in the examples\<close>

lemma attempt_returning_no_timeout:
  "r \<noteq> RETRY \<Longrightarrow> timeout md = None \<Longrightarrow>
     attempt (returning r) s md rc m w = Some (r, recorded m s rc r None w w, w)"
  by (rule attempt_returned) (simp_all add: returning_def)

lemma fails_at_returning:
  "timeout md = None \<Longrightarrow> fails_at (returning FAILURE) md s i"
  by (simp add: fails_at_def returning_def in_time_def)

lemma configured_fields [simp]:
  "state_metadata (configured mds ts) = mds"
  "current_state (configured mds ts) = Some A"
  "retry_counts (configured mds ts) = Map.empty"
  "state_history (configured mds ts) = []"
  "handler_calls (configured mds ts) = []"
  "transition_map (configured mds ts) = build_transition_map ts Map.empty"
  by (simp_all add: configured_def fresh_def init_machine_def)

lemma self_failover_execute:
  "execute_state self_failover_cfg A self_failover_start world0
     = Some (Inr FAILURE, self_failover_failed, world0)"
proof -
  have md: "state_metadata self_failover_start A = Some self_failover_meta"
    by (simp add: self_failover_start_def with_meta_def)
  have h: "get_state_handler self_failover_cfg A = Inr (returning FAILURE)"
    unfolding self_failover_cfg_def
    by (rule get_state_handler_simple) (simp add: with_handler_def)
  have rc: "retry_count_of self_failover_start A = 0"
    by (simp add: retry_count_of_def self_failover_start_def)
  have att: "attempt (returning FAILURE) A self_failover_meta
               (retry_count_of self_failover_start A) self_failover_start world0
             = Some (FAILURE, recorded self_failover_start A 0 FAILURE None world0 world0,
                     world0)"
    unfolding rc
    by (rule attempt_returning_no_timeout) (simp_all add: self_failover_meta_def meta_def)
  have ex: "\<not> retry_count_of self_failover_start A < max_retries self_failover_meta"
    by (simp add: rc self_failover_meta_def)
  have "retry_counts (recorded self_failover_start A 0 FAILURE None world0 world0) = Map.empty"
    by (simp add: recorded_def self_failover_start_def)
  with execute_state_exhausted [OF md h att _ ex] show ?thesis
    by (simp add: self_failover_meta_def self_failover_failed_def)
qed

lemma self_failover_next:
  "get_next_state self_failover_failed A FAILURE world0 = Some B"
  by (simp add: get_next_state_def self_failover_failed_def recorded_def
      self_failover_start_def can_transition_def transition_def)

lemma self_failover_watchdog:
  "check_watchdog self_failover_start world0 = (Inr (), self_failover_start)"
  by (simp add: self_failover_start_def check_watchdog_configured)

theorem self_failover_runs_selection_witness:
  "state_metadata self_failover_start A = Some self_failover_meta \<and>
   failover_state self_failover_meta = Some A \<and>
   check_watchdog self_failover_start world0 = (Inr (), self_failover_start) \<and>
   current_state self_failover_start = Some A \<and>
   execute_state self_failover_cfg A self_failover_start world0
     = Some (Inr FAILURE, self_failover_failed, world0) \<and>
   retry_count_of self_failover_start A = max_retries self_failover_meta \<and>
   current_state self_failover_failed = Some A \<and>
   loop_body self_failover_cfg self_failover_start world0
     = Some (Continue (self_failover_failed\<lparr> current_state := Some B \<rparr>) world0)"
proof -
  have md: "state_metadata self_failover_start A = Some self_failover_meta"
    by (simp add: self_failover_start_def with_meta_def)
  have fo: "failover_state self_failover_meta = Some A"
    by (simp add: self_failover_meta_def)
  have cur: "current_state self_failover_start = Some A"
    by (simp add: self_failover_start_def)
  have rc: "retry_count_of self_failover_start A = max_retries self_failover_meta"
    by (simp add: retry_count_of_def self_failover_start_def self_failover_meta_def)
  from self_failover_runs_selection
         [OF md fo self_failover_watchdog cur self_failover_execute]
  have "current_state self_failover_failed = Some A"
    and "loop_body self_failover_cfg self_failover_start world0
           = Some (Continue (self_failover_failed\<lparr> current_state := Some B \<rparr>) world0)"
    by (simp_all add: self_failover_next)
  with md fo self_failover_watchdog cur self_failover_execute rc show ?thesis
    by simp
qed

text \<open>
  A state that fails over to itself, with a handler that always fails and no retries:
  after the pass of the run loop the current state is \<open>B\<close>, the target of the state's own
  transition, not the failover state \<open>A\<close>.
\<close>

theorem self_failover_consults_transitions:
  "failover_state self_failover_meta = Some A \<and>
   max_retries self_failover_meta = 0 \<and>
   fails_at (returning FAILURE) self_failover_meta A 0 \<and>
   current_state self_failover_start = Some A \<and>
   loop_body self_failover_cfg self_failover_start world0
     = Some (Continue (self_failover_failed\<lparr> current_state := Some B \<rparr>) world0) \<and>
   current_state (self_failover_failed\<lparr> current_state := Some B \<rparr>) = Some B"
proof -
  have "fails_at (returning FAILURE) self_failover_meta A 0"
    by (rule fails_at_returning) (simp add: self_failover_meta_def meta_def)
  moreover have "loop_body self_failover_cfg self_failover_start world0
     = Some (Continue (self_failover_failed\<lparr> current_state := Some B \<rparr>) world0)"
    using self_failover_watchdog self_failover_execute self_failover_next
    by (simp add: loop_body_def self_failover_start_def self_failover_failed_def)
  ultimately show ?thesis
    by (simp add: self_failover_meta_def self_failover_start_def)
qed

lemma timed_failover_facts:
  "state_metadata timed_failover_start A = Some timed_failover_meta"
  "get_state_handler timed_failover_cfg A = Inr (slow 1 SUCCESS)"
  "retry_count_of timed_failover_start A = max_retries timed_failover_meta"
  "failover_state timed_failover_meta = Some ERROR"
proof -
  show "state_metadata timed_failover_start A = Some timed_failover_meta"
    by (simp add: timed_failover_start_def with_meta_def)
  show "get_state_handler timed_failover_cfg A = Inr (slow 1 SUCCESS)"
    unfolding timed_failover_cfg_def
    by (rule get_state_handler_simple) (simp add: with_handler_def)
  show "retry_count_of timed_failover_start A = max_retries timed_failover_meta"
    by (simp add: retry_count_of_def timed_failover_start_def timed_failover_meta_def
        slow_meta_def)
  show "failover_state timed_failover_meta = Some ERROR"
    by (simp add: timed_failover_meta_def)
qed

lemma timed_failover_attempt:
  "attempt (slow 1 SUCCESS) A timed_failover_meta (retry_count_of timed_failover_start A)
     timed_failover_start world0
     = Some (TIMEOUT, timed_out, world0\<lparr> now := 1 \<rparr>)"
proof -
  have rc: "retry_count_of timed_failover_start A = 0"
    by (simp add: retry_count_of_def timed_failover_start_def)
  have t: "timeout timed_failover_meta = Some (1 / 2)"
    by (simp add: timed_failover_meta_def slow_meta_def)
  have calls: "handler_calls timed_failover_start = []"
    and hist: "state_history timed_failover_start = []"
    by (simp_all add: timed_failover_start_def)
  show ?thesis
    unfolding rc
    by (simp add: attempt_def try_block_def t calls hist slow_loop has_timed_out_def
        elapsed_time_def world0_def [symmetric] Let_def timed_out_def deque_append_def)
       (simp add: world0_def)
qed

text \<open>
  What \<open>execute_state\<close> returns when the last attempt timed out and the engine fails
  over: the attempt's result \<open>TIMEOUT\<close>, where the docstring of \<^verbatim>\<open>_execute_state\<close>
  says \<open>FAILURE\<close>.
\<close>

lemma failover_returns_timeout:
  "execute_state timed_failover_cfg A timed_failover_start world0
     = Some (Inr TIMEOUT,
             timed_out\<lparr> current_state := Some ERROR, retry_counts := [A \<mapsto> 0] \<rparr>,
             world0\<lparr> now := 1 \<rparr>)"
proof -
  have "\<not> retry_count_of timed_failover_start A < max_retries timed_failover_meta"
    by (simp add: timed_failover_facts(3))
  from execute_state_exhausted
         [OF timed_failover_facts(1,2) timed_failover_attempt _ this]
  show ?thesis
    by (simp add: timed_failover_facts(4) timed_out_def timed_failover_start_def)
qed

lemma failover_facts:
  "state_metadata failover_start A = Some failover_meta"
  "post_init failover_meta = Inr failover_meta"
  "get_state_handler failover_cfg A = Inr (returning FAILURE)"
  "retry_count_of failover_start A = 0"
  "max_retries failover_meta = int 1"
  "failover_state failover_meta = Some ERROR"
  "check_watchdog failover_start world0 = (Inr (), failover_start)"
  "current_state failover_start = Some A"
proof -
  show "state_metadata failover_start A = Some failover_meta"
    by (simp add: failover_start_def with_meta_def)
  show "post_init failover_meta = Inr failover_meta"
    by (simp add: post_init_def failover_meta_def meta_def)
  show "get_state_handler failover_cfg A = Inr (returning FAILURE)"
    unfolding failover_cfg_def
    by (rule get_state_handler_simple) (simp add: with_handler_def)
  show "retry_count_of failover_start A = 0"
    by (simp add: retry_count_of_def failover_start_def)
  show "max_retries failover_meta = int 1"
    by (simp add: failover_meta_def)
  show "failover_state failover_meta = Some ERROR"
    by (simp add: failover_meta_def)
  show "check_watchdog failover_start world0 = (Inr (), failover_start)"
    by (simp add: failover_start_def check_watchdog_configured)
  show "current_state failover_start = Some A"
    by (simp add: failover_start_def)
qed

lemma upto_0_1: "[0..1::int] = [0, 1]"
  by (simp add: upto_rec1)

theorem failover_after_exhaustion_witness:
  "state_metadata timed_failover_start A = Some timed_failover_meta \<and>
   get_state_handler timed_failover_cfg A = Inr (slow 1 SUCCESS) \<and>
   attempt (slow 1 SUCCESS) A timed_failover_meta (retry_count_of timed_failover_start A)
     timed_failover_start world0
     = Some (TIMEOUT, timed_out, world0\<lparr> now := 1 \<rparr>) \<and>
   retry_count_of timed_failover_start A = max_retries timed_failover_meta \<and>
   failover_state timed_failover_meta = Some ERROR \<and>
   map_option snd (execute_state timed_failover_cfg A timed_failover_start world0)
     = Some (timed_out\<lparr> current_state := Some ERROR,
                        retry_counts := (retry_counts timed_out)(A \<mapsto> 0) \<rparr>,
             world0\<lparr> now := 1 \<rparr>) \<and>
   state_metadata failover_start A = Some failover_meta \<and>
   post_init failover_meta = Inr failover_meta \<and>
   get_state_handler failover_cfg A = Inr (returning FAILURE) \<and>
   retry_count_of failover_start A = 0 \<and>
   max_retries failover_meta = int 1 \<and>
   fails_at (returning FAILURE) failover_meta A 0 \<and>
   fails_at (returning FAILURE) failover_meta A 1 \<and>
   failover_state failover_meta = Some ERROR \<and>
   ERROR \<noteq> A \<and>
   check_watchdog failover_start world0 = (Inr (), failover_start) \<and>
   current_state failover_start = Some A \<and>
   map_option fst (execute_state failover_cfg A failover_start world0) = Some (Inr FAILURE) \<and>
   map_option (handler_calls \<circ> fst \<circ> snd) (execute_state failover_cfg A failover_start world0)
     = Some [(A, 0), (A, 1)] \<and>
   map_option (current_state \<circ> fst \<circ> snd) (execute_state failover_cfg A failover_start world0)
     = Some (Some ERROR) \<and>
   map_option ((\<lambda>m. retry_counts m A) \<circ> fst \<circ> snd)
       (execute_state failover_cfg A failover_start world0)
     = Some (Some 0) \<and>
   loop_body failover_cfg failover_start world0
     = map_option (\<lambda>(r, m', w'). Continue m' w')
         (execute_state failover_cfg A failover_start world0)"
proof -
  note tf = timed_failover_facts
  note ff = failover_facts
  have partA: "map_option snd (execute_state timed_failover_cfg A timed_failover_start world0)
     = Some (timed_out\<lparr> current_state := Some ERROR,
                        retry_counts := (retry_counts timed_out)(A \<mapsto> 0) \<rparr>,
             world0\<lparr> now := 1 \<rparr>)"
    using failover_after_exhaustion
      [where m = timed_failover_start and s = A and md = timed_failover_meta
         and cfg = timed_failover_cfg and h = "slow 1 SUCCESS" and w = world0
         and res = TIMEOUT and ?m1.0 = timed_out and ?w1.0 = "world0\<lparr> now := 1 \<rparr>"
         and f = ERROR and n = 0 and ?m0.0 = timed_failover_start, THEN conjunct1]
      tf timed_failover_attempt
    by blast
  have fails: "fails_at (returning FAILURE) failover_meta A i" for i
    by (rule fails_at_returning) (simp add: failover_meta_def meta_def)
  then have all: "\<forall>i. 0 \<le> i \<and> i \<le> int 1 \<longrightarrow> fails_at (returning FAILURE) failover_meta A i"
    by blast
  from failover_after_exhaustion
      [where m = failover_start and s = A and md = failover_meta
         and cfg = failover_cfg and h = "returning FAILURE" and w = world0
         and res = TIMEOUT and ?m1.0 = timed_out and ?w1.0 = world0
         and f = ERROR and n = 1 and ?m0.0 = failover_start, THEN conjunct2]
    ff all
  obtain m' w' where
    ex: "execute_state failover_cfg A failover_start world0 = Some (Inr FAILURE, m', w')"
    and calls: "handler_calls m' = handler_calls failover_start @ map (Pair A) [0..int 1]"
    and cur: "current_state m' = Some ERROR"
    and cnt: "retry_counts m' = (retry_counts failover_start)(A \<mapsto> 0)"
    and loop: "loop_body failover_cfg failover_start world0 = Some (Continue m' w')"
    by auto
  have "handler_calls failover_start = []"
    by (simp add: failover_start_def)
  with ex calls cur cnt loop upto_0_1
  have partB:
    "map_option fst (execute_state failover_cfg A failover_start world0) = Some (Inr FAILURE)"
    "map_option (handler_calls \<circ> fst \<circ> snd)
       (execute_state failover_cfg A failover_start world0) = Some [(A, 0), (A, 1)]"
    "map_option (current_state \<circ> fst \<circ> snd)
       (execute_state failover_cfg A failover_start world0) = Some (Some ERROR)"
    "map_option ((\<lambda>m. retry_counts m A) \<circ> fst \<circ> snd)
       (execute_state failover_cfg A failover_start world0) = Some (Some 0)"
    "loop_body failover_cfg failover_start world0
       = map_option (\<lambda>(r, m', w'). Continue m' w')
           (execute_state failover_cfg A failover_start world0)"
    by simp_all
  from tf timed_failover_attempt partA ff fails [of 0] fails [of 1] partB show ?thesis
    by simp
qed

end
